theory Spec2Isabelle
  imports Complex_Main "HOL-Library.AList" "HOL-Library.Sublist"
begin

section \<open>Data model\<close>

subsection \<open>Generic JSON values (caller-supplied edit requests)\<close>

text \<open>
  The edit requests handed to \<^verbatim>\<open>batch_update\<close> are arbitrary JSON objects. A Python
  \<^verbatim>\<open>dict\<close> keeps its keys in insertion order, so an object is an association list:
  \<open>map_of\<close> reads a key, \<open>AList.update\<close> assigns one (in place when the key exists, at the
  end when it is new), as \<^verbatim>\<open>d[k] = v\<close> does.
\<close>

datatype json =
    JNull
  | JBool bool
  | JInt int
  | JFloat rat
  | JStr string
  | JList "json list"
  | JObj "(string \<times> json) list"

type_synonym jdict = "(string \<times> json) list"

subsection \<open>Errors\<close>

text \<open>
  \<open>TabNotFound\<close> is the \<^verbatim>\<open>ValueError\<close> raised by \<^verbatim>\<open>_resolve_tab\<close>; its message is built
  from the requested identifier and title, which the constructor carries. \<open>TypeError\<close> is
  Python's own, raised by a membership test or an item assignment on a value that does not
  support it. \<open>RemoteError\<close> is any failure of the remote service.
\<close>

datatype error =
    TabNotFound string string
  | TypeError
  | RemoteError string

subsection \<open>Documents as returned by the document service\<close>

text \<open>
  The document snapshot follows the schema of the remote service. Every field that the code
  reads with \<^verbatim>\<open>.get(key, default)\<close> is optional here; \<open>get_or\<close> is that read.
\<close>

definition get_or :: "'a option \<Rightarrow> 'a \<Rightarrow> 'a" where
  "get_or field dflt = (case field of None \<Rightarrow> dflt | Some v \<Rightarrow> v)"

record text_run =
  run_content :: "string option"

record paragraph_element =
  textRun :: "text_run option"

record paragraph_style =
  namedStyleType :: "string option"

record paragraph_rec =
  paragraphStyle :: "paragraph_style option"
  elements :: "paragraph_element list option"

record structural_element =
  paragraph_of :: "paragraph_rec option"
  endIndex :: "int option"

record body =
  content :: "structural_element list option"

record tab_properties =
  tabId :: "string option"
  title :: "string option"
  index :: "int option"

record document_tab =
  tab_body :: "body option"

datatype tab =
  Tab (tabProperties: "tab_properties option")
      (documentTab: "document_tab option")
      (childTabs: "tab list option")

record document =
  doc_title :: "string option"
  doc_id :: "string option"
  doc_body :: "body option"
  doc_tabs :: "tab list option"

text \<open>The empty dictionaries used as defaults.\<close>

definition empty_body :: body where
  "empty_body = \<lparr>content = None\<rparr>"

definition empty_props :: tab_properties where
  "empty_props = \<lparr>tabId = None, title = None, index = None\<rparr>"

definition empty_document_tab :: document_tab where
  "empty_document_tab = \<lparr>tab_body = None\<rparr>"

definition empty_paragraph_style :: paragraph_style where
  "empty_paragraph_style = \<lparr>namedStyleType = None\<rparr>"

section \<open>Content extractor\<close>

text \<open>\<^verbatim>\<open>str.rstrip("\n")\<close>: drop every trailing line feed.\<close>

definition rstrip_nl :: "string \<Rightarrow> string" where
  "rstrip_nl s = rev (dropWhile (\<lambda>c. c = CHR 0x0A) (rev s))"

text \<open>\<^verbatim>\<open>sep.join(parts)\<close>.\<close>

fun join :: "string \<Rightarrow> string list \<Rightarrow> string" where
  "join sep [] = []"
| "join sep [p] = p"
| "join sep (p # q # ps) = p @ sep @ join sep (q # ps)"

text \<open>\<^verbatim>\<open>heading_map.get(named_style, "")\<close>.\<close>

definition heading_map :: "(string \<times> string) list" where
  "heading_map =
     [(''HEADING_1'', ''# ''),
      (''HEADING_2'', ''## ''),
      (''HEADING_3'', ''### ''),
      (''HEADING_4'', ''#### ''),
      (''HEADING_5'', ''##### ''),
      (''HEADING_6'', ''###### ''),
      (''TITLE'', ''# ''),
      (''SUBTITLE'', ''## '')]"

text \<open>
  The inner loop of the extractor: the contents of the text runs of one paragraph, in order.
  An element without a text run contributes nothing. (The source also skips a text run that
  is an empty dictionary; such a run has no content and would add the empty string, so the
  line is the same.)
\<close>

definition line_parts_step :: "paragraph_element \<Rightarrow> string list \<Rightarrow> string list" where
  "line_parts_step elem line_parts =
     (case textRun elem of
        None \<Rightarrow> line_parts
      | Some text_run \<Rightarrow> line_parts @ [get_or (run_content text_run) ''''])"

text \<open>One iteration of the outer loop: \<open>parts\<close> is the list of lines emitted so far.\<close>

definition extract_step :: "structural_element \<Rightarrow> string list \<Rightarrow> string list" where
  "extract_step element parts =
     (case paragraph_of element of
        None \<Rightarrow> parts
      | Some para \<Rightarrow>
          (let style = get_or (paragraphStyle para) empty_paragraph_style;
               named_style = get_or (namedStyleType style) ''NORMAL_TEXT'';
               line_parts = fold line_parts_step (get_or (elements para) []) [];
               line = concat line_parts;
               prefix = get_or (map_of heading_map named_style) '''';
               line_stripped = rstrip_nl line
           in if line_stripped \<noteq> [] then parts @ [prefix @ line_stripped]
              else if prefix = [] then parts @ ['''']
              else parts))"

definition extract_text_from_body :: "body \<Rightarrow> string" where
  "extract_text_from_body b =
     join [CHR 0x0A] (fold extract_step (get_or (content b) []) [])"

section \<open>Offset calculator\<close>

definition body_end_index :: "body \<Rightarrow> int" where
  "body_end_index b =
     (let content = get_or (content b) [] in
      if content = [] then 1
      else get_or (endIndex (last content)) 1 - 1)"

section \<open>Tab tree flattener\<close>

record entry =
  entry_tabId :: string
  entry_title :: string
  entry_index :: int
  entry_depth :: int
  entry_tab :: tab

definition mk_entry :: "tab \<Rightarrow> int \<Rightarrow> entry" where
  "mk_entry tab depth =
     (let props = get_or (tabProperties tab) empty_props in
      \<lparr>entry_tabId = get_or (tabId props) '''',
       entry_title = get_or (title props) '''',
       entry_index = get_or (index props) 0,
       entry_depth = depth,
       entry_tab = tab\<rparr>)"

lemma size_list_member: "x \<in> set xs \<Longrightarrow> f x < size_list f xs"
  by (induction xs) auto

lemma size_child_tab:
  "childTabs t = Some cs \<Longrightarrow> c \<in> set cs \<Longrightarrow> size c < size t"
  using size_list_estimation' [of c cs "size c" size] by (cases t) auto

function flatten_tabs :: "tab list \<Rightarrow> int \<Rightarrow> entry list" where
  "flatten_tabs tabs depth =
     fold (\<lambda>tab result.
             fold (\<lambda>child result. result @ flatten_tabs [child] (depth + 1))
                  (get_or (childTabs tab) [])
                  (result @ [mk_entry tab depth]))
          tabs []"
  by pat_completeness auto
termination
proof (relation "measure (\<lambda>(tabs, depth). size_list size tabs)")
  show "wf (measure (\<lambda>(tabs, depth). size_list size tabs))" by simp
next
  fix tabs :: "tab list" and depth :: int and tab result child result'
  assume tab: "tab \<in> set tabs" and child: "child \<in> set (get_or (childTabs tab) [])"
  from child obtain cs where cs: "childTabs tab = Some cs" "child \<in> set cs"
    by (cases "childTabs tab") (auto simp: get_or_def)
  then have "size child < size tab" by (rule size_child_tab)
  moreover have "size tab < size_list size tabs"
    using tab by (rule size_list_member)
  ultimately show "(([child], depth + 1), (tabs, depth)) \<in> measure (\<lambda>(tabs, depth). size_list size tabs)"
    by simp
qed

declare flatten_tabs.simps [simp del]

section \<open>Tab resolver\<close>

text \<open>
  \<^verbatim>\<open>str.lower()\<close> is Python's own and maps every cased letter of Unicode. It is not
  modelled: every function that compares titles takes it as its first argument \<open>lower\<close>,
  and what is proved holds for every such function. \<open>ascii_lower\<close> is the instance used on
  the example data: it maps the letters A to Z and agrees with \<^verbatim>\<open>str.lower()\<close> on ASCII
  text.
\<close>

definition ascii_lower_char :: "char \<Rightarrow> char" where
  "ascii_lower_char c =
     get_or (map_of (zip ''ABCDEFGHIJKLMNOPQRSTUVWXYZ'' ''abcdefghijklmnopqrstuvwxyz'') c) c"

definition ascii_lower :: "string \<Rightarrow> string" where
  "ascii_lower s = map ascii_lower_char s"

text \<open>The loop of \<^verbatim>\<open>_find_tab\<close> over the flattened entries.\<close>

fun find_tab_loop :: "(string \<Rightarrow> string) \<Rightarrow> entry list \<Rightarrow> string \<Rightarrow> string \<Rightarrow> tab option" where
  "find_tab_loop lower [] tab_id tab_title = None"
| "find_tab_loop lower (entry # flat) tab_id tab_title =
     (if tab_id \<noteq> [] \<and> entry_tabId entry = tab_id then Some (entry_tab entry)
      else if tab_title \<noteq> [] \<and> lower (entry_title entry) = lower tab_title
        then Some (entry_tab entry)
      else find_tab_loop lower flat tab_id tab_title)"

definition find_tab :: "(string \<Rightarrow> string) \<Rightarrow> tab list \<Rightarrow> string \<Rightarrow> string \<Rightarrow> tab option" where
  "find_tab lower tabs tab_id tab_title = find_tab_loop lower (flatten_tabs tabs 0) tab_id tab_title"

text \<open>
  Truthiness of the value returned by \<^verbatim>\<open>_find_tab\<close>: \<^verbatim>\<open>None\<close> and the empty dictionary
  are false.
\<close>

definition truthy_tab :: "tab option \<Rightarrow> bool" where
  "truthy_tab r = (case r of None \<Rightarrow> False | Some t \<Rightarrow> t \<noteq> Tab None None None)"

definition tab_body_of :: "tab \<Rightarrow> body" where
  "tab_body_of t = get_or (tab_body (get_or (documentTab t) empty_document_tab)) empty_body"

definition tab_id_of :: "tab \<Rightarrow> string" where
  "tab_id_of t = get_or (tabId (get_or (tabProperties t) empty_props)) []"

definition resolve_tab :: "(string \<Rightarrow> string) \<Rightarrow> document \<Rightarrow> string \<Rightarrow> string \<Rightarrow> error + (body \<times> string)" where
  "resolve_tab lower doc tab_id tab_title =
     (case get_or (doc_tabs doc) [] of
        [] \<Rightarrow> Inr (get_or (doc_body doc) empty_body, [])
      | first # rest \<Rightarrow>
          if tab_id \<noteq> [] \<or> tab_title \<noteq> [] then
            (let found = find_tab lower (first # rest) tab_id tab_title in
             if \<not> truthy_tab found then Inl (TabNotFound tab_id tab_title)
             else Inr (tab_body_of (the found), tab_id_of (the found)))
          else Inr (tab_body_of first, tab_id_of first))"

section \<open>Request scope rewriter\<close>

text \<open>\<^verbatim>\<open>key in value\<close> and \<^verbatim>\<open>target[key] = v\<close> on a JSON value.\<close>

fun py_contains :: "string \<Rightarrow> json \<Rightarrow> error + bool" where
  "py_contains k (JObj d) = Inr (map_of d k \<noteq> None)"
| "py_contains k (JStr s) = Inr (sublist k s)"
| "py_contains k (JList xs) = Inr (List.member xs (JStr k))"
| "py_contains k JNull = Inl TypeError"
| "py_contains k (JBool b) = Inl TypeError"
| "py_contains k (JInt i) = Inl TypeError"
| "py_contains k (JFloat r) = Inl TypeError"

fun py_setitem :: "json \<Rightarrow> string \<Rightarrow> json \<Rightarrow> error + json" where
  "py_setitem (JObj d) k v = Inr (JObj (AList.update k v d))"
| "py_setitem (JStr s) k v = Inl TypeError"
| "py_setitem (JList xs) k v = Inl TypeError"
| "py_setitem JNull k v = Inl TypeError"
| "py_setitem (JBool b) k v = Inl TypeError"
| "py_setitem (JInt i) k v = Inl TypeError"
| "py_setitem (JFloat r) k v = Inl TypeError"

text \<open>A loop whose body may raise: the first error ends it.\<close>

fun fold_err :: "('a \<Rightarrow> 's \<Rightarrow> error + 's) \<Rightarrow> 'a list \<Rightarrow> 's \<Rightarrow> error + 's" where
  "fold_err f [] s = Inr s"
| "fold_err f (x # xs) s =
     (case f x s of Inl e \<Rightarrow> Inl e | Inr s' \<Rightarrow> fold_err f xs s')"

fun map_err :: "('a \<Rightarrow> error + 'b) \<Rightarrow> 'a list \<Rightarrow> error + 'b list" where
  "map_err f [] = Inr []"
| "map_err f (x # xs) =
     (case f x of
        Inl e \<Rightarrow> Inl e
      | Inr y \<Rightarrow> (case map_err f xs of Inl e \<Rightarrow> Inl e | Inr ys \<Rightarrow> Inr (y # ys)))"

text \<open>
  One iteration of \<^verbatim>\<open>for key in ("location", "range", "insertionLocation")\<close> on the body
  of one operation. The assignment mutates the value stored under \<open>key\<close>, which stays at
  its place in the dictionary.
\<close>

definition inject_key :: "string \<Rightarrow> string \<Rightarrow> jdict \<Rightarrow> error + jdict" where
  "inject_key resolved_tab_id key op_body =
     (case map_of op_body key of
        None \<Rightarrow> Inr op_body
      | Some target \<Rightarrow>
          (case py_contains ''tabId'' target of
             Inl e \<Rightarrow> Inl e
           | Inr True \<Rightarrow> Inr op_body
           | Inr False \<Rightarrow>
               (case py_setitem target ''tabId'' (JStr resolved_tab_id) of
                  Inl e \<Rightarrow> Inl e
                | Inr target' \<Rightarrow> Inr (AList.update key target' op_body))))"

definition scope_keys :: "string list" where
  "scope_keys = [''location'', ''range'', ''insertionLocation'']"

definition tabs_criteria :: "string \<Rightarrow> json" where
  "tabs_criteria resolved_tab_id = JObj [(''tabIds'', JList [JStr resolved_tab_id])]"

definition scope_op_body :: "string \<Rightarrow> jdict \<Rightarrow> error + jdict" where
  "scope_op_body resolved_tab_id op_body =
     (case fold_err (inject_key resolved_tab_id) scope_keys op_body of
        Inl e \<Rightarrow> Inl e
      | Inr op_body' \<Rightarrow>
          if map_of op_body' ''containsText'' \<noteq> None \<and> map_of op_body' ''tabsCriteria'' = None
          then Inr (AList.update ''tabsCriteria'' (tabs_criteria resolved_tab_id) op_body')
          else Inr op_body')"

text \<open>The loop over the items of one request; a value that is not a dictionary is skipped.\<close>

definition scope_item :: "string \<Rightarrow> string \<times> json \<Rightarrow> error + (string \<times> json)" where
  "scope_item resolved_tab_id item =
     (case item of
        (op_name, JObj op_body) \<Rightarrow>
          (case scope_op_body resolved_tab_id op_body of
             Inl e \<Rightarrow> Inl e
           | Inr op_body' \<Rightarrow> Inr (op_name, JObj op_body'))
      | (op_name, other) \<Rightarrow> Inr (op_name, other))"

definition scope_request :: "string \<Rightarrow> jdict \<Rightarrow> error + jdict" where
  "scope_request resolved_tab_id req = map_err (scope_item resolved_tab_id) req"

text \<open>
  The rewrite of \<^verbatim>\<open>batch_update\<close>: nothing is touched when the resolved identifier is
  empty.
\<close>

definition scope_requests :: "string \<Rightarrow> jdict list \<Rightarrow> error + jdict list" where
  "scope_requests resolved_tab_id requests =
     (if resolved_tab_id \<noteq> [] then map_err (scope_request resolved_tab_id) requests
      else Inr requests)"

section \<open>Tool layer\<close>

subsection \<open>The remote document service\<close>

text \<open>
  The service is a collaborator: a tool is given its two operations and the model records
  every call made to it, in order. A failure of the service carries the service's own
  message and ends the tool. A tool returns the value it hands to \<^verbatim>\<open>json.dumps\<close>; the
  character counts in it are list lengths, which are Python's \<^verbatim>\<open>len\<close> on ASCII text.
\<close>

record replace_all_reply =
  occurrencesChanged :: "int option"

record reply =
  replaceAllText :: "replace_all_reply option"

record batch_response =
  replies :: "reply list option"
  resp_documentId :: "string option"

record service =
  documents_get :: "string \<Rightarrow> string + document"
  documents_batchUpdate :: "string \<Rightarrow> jdict list \<Rightarrow> string + batch_response"

datatype api_call =
    GetDocument string
  | BatchUpdate string "jdict list"

type_synonym 'a io = "api_call list \<times> (error + 'a)"

definition io_return :: "'a \<Rightarrow> 'a io" where
  "io_return x = ([], Inr x)"

definition io_lift :: "error + 'a \<Rightarrow> 'a io" where
  "io_lift r = ([], r)"

definition io_bind :: "'a io \<Rightarrow> ('a \<Rightarrow> 'b io) \<Rightarrow> 'b io" where
  "io_bind m f =
     (case m of
        (calls, Inl e) \<Rightarrow> (calls, Inl e)
      | (calls, Inr x) \<Rightarrow> (case f x of (calls', r) \<Rightarrow> (calls @ calls', r)))"

definition remote :: "string + 'a \<Rightarrow> error + 'a" where
  "remote r = (case r of Inl msg \<Rightarrow> Inl (RemoteError msg) | Inr x \<Rightarrow> Inr x)"

definition get_doc_with_tabs :: "service \<Rightarrow> string \<Rightarrow> document io" where
  "get_doc_with_tabs docs document_id =
     ([GetDocument document_id], remote (documents_get docs document_id))"

definition execute_batchUpdate :: "service \<Rightarrow> string \<Rightarrow> jdict list \<Rightarrow> batch_response io" where
  "execute_batchUpdate docs document_id requests =
     ([BatchUpdate document_id requests], remote (documents_batchUpdate docs document_id requests))"

subsection \<open>read_document\<close>

definition em_dash :: string where
  "em_dash = [CHR 0xE2, CHR 0x80, CHR 0x94]"

definition tab_separator :: string where
  "tab_separator = [CHR 0x0A, CHR 0x0A] @ ''---'' @ [CHR 0x0A, CHR 0x0A]"

text \<open>One iteration of the loop over the flattened entries when every tab is read.\<close>

definition section_step :: "entry \<Rightarrow> string list \<Rightarrow> string list" where
  "section_step entry sections =
     (let tab_obj = entry_tab entry;
          tab_name = entry_title entry;
          body = tab_body_of tab_obj;
          text = extract_text_from_body body;
          heading_level = replicate (nat (entry_depth entry + 2)) CHR ''#''
      in sections @ [heading_level @ '' ['' @ tab_name @ '']'' @ [CHR 0x0A, CHR 0x0A] @ text])"

definition read_document :: "(string \<Rightarrow> string) \<Rightarrow> service \<Rightarrow> string \<Rightarrow> string \<Rightarrow> string \<Rightarrow> string io" where
  "read_document lower docs document_id tab_id tab_title =
     io_bind (get_doc_with_tabs docs document_id) (\<lambda>doc.
       let title' = get_or (doc_title doc) ''Untitled'';
           tabs = get_or (doc_tabs doc) []
       in if tab_id \<noteq> [] \<or> tab_title \<noteq> [] then
            io_bind (io_lift (resolve_tab lower doc tab_id tab_title)) (\<lambda>(body, resolved_id).
              let tab = find_tab lower tabs resolved_id [];
                  tab_name = (if truthy_tab tab
                              then get_or (title (get_or (tabProperties (the tab)) empty_props)) []
                              else []);
                  text = extract_text_from_body body
              in io_return (''# '' @ title' @ '' '' @ em_dash @ '' ['' @ tab_name @ '']''
                            @ [CHR 0x0A, CHR 0x0A] @ text))
          else if tabs = [] then
            (let body = get_or (doc_body doc) empty_body;
                 text = extract_text_from_body body
             in io_return (''# '' @ title' @ [CHR 0x0A, CHR 0x0A] @ text))
          else
            (let flat = flatten_tabs tabs 0;
                 sections = fold section_step flat [''# '' @ title' @ [CHR 0x0A]]
             in io_return (join tab_separator sections)))"

subsection \<open>append_text\<close>

definition insert_text_request :: "jdict \<Rightarrow> string \<Rightarrow> jdict" where
  "insert_text_request location text =
     [(''insertText'', JObj [(''location'', JObj location), (''text'', JStr text)])]"

definition append_text :: "(string \<Rightarrow> string) \<Rightarrow> service \<Rightarrow> string \<Rightarrow> string \<Rightarrow> string \<Rightarrow> string \<Rightarrow> json io" where
  "append_text lower docs document_id text tab_id tab_title =
     io_bind (get_doc_with_tabs docs document_id) (\<lambda>doc.
     io_bind (io_lift (resolve_tab lower doc tab_id tab_title)) (\<lambda>(body, resolved_tab_id).
       let end_idx = body_end_index body;
           text = (if end_idx > 1 then CHR 0x0A # text else text);
           location = [(''index'', JInt end_idx)];
           location = (if resolved_tab_id \<noteq> []
                       then AList.update ''tabId'' (JStr resolved_tab_id) location
                       else location)
       in io_bind (execute_batchUpdate docs document_id [insert_text_request location text])
            (\<lambda>_. io_return (JObj [(''status'', JStr ''ok''),
                                   (''appended_chars'', JInt (int (length text))),
                                   (''at_index'', JInt end_idx),
                                   (''tabId'', JStr resolved_tab_id)]))))"

subsection \<open>insert_text\<close>

definition insert_text ::
  "(string \<Rightarrow> string) \<Rightarrow> service \<Rightarrow> string \<Rightarrow> string \<Rightarrow> int \<Rightarrow> string \<Rightarrow> string \<Rightarrow> json io" where
  "insert_text lower docs document_id text index' tab_id tab_title =
     (let location = [(''index'', JInt index')] in
      io_bind
        (if tab_id \<noteq> [] then io_return (AList.update ''tabId'' (JStr tab_id) location)
         else if tab_title \<noteq> [] then
           io_bind (get_doc_with_tabs docs document_id) (\<lambda>doc.
           io_bind (io_lift (resolve_tab lower doc [] tab_title)) (\<lambda>(_, resolved_tab_id).
             io_return (if resolved_tab_id \<noteq> []
                        then AList.update ''tabId'' (JStr resolved_tab_id) location
                        else location)))
         else io_return location)
        (\<lambda>location.
           io_bind (execute_batchUpdate docs document_id [insert_text_request location text])
             (\<lambda>_. io_return (JObj [(''status'', JStr ''ok''),
                                    (''inserted_chars'', JInt (int (length text))),
                                    (''at_index'', JInt index'),
                                    (''tabId'', get_or (map_of location ''tabId'') (JStr []))]))))"

subsection \<open>replace_text and batch_update\<close>

text \<open>
  The resolution shared by \<^verbatim>\<open>replace_text\<close> and \<^verbatim>\<open>batch_update\<close>: the caller's
  identifier when it is not empty, else the identifier resolved from the title when a title
  is given, else the empty identifier.
\<close>

definition resolve_scope :: "(string \<Rightarrow> string) \<Rightarrow> service \<Rightarrow> string \<Rightarrow> string \<Rightarrow> string \<Rightarrow> string io" where
  "resolve_scope lower docs document_id tab_id tab_title =
     (let resolved_tab_id = tab_id in
      if resolved_tab_id = [] \<and> tab_title \<noteq> [] then
        io_bind (get_doc_with_tabs docs document_id) (\<lambda>doc.
        io_bind (io_lift (resolve_tab lower doc [] tab_title)) (\<lambda>(_, resolved_tab_id).
          io_return resolved_tab_id))
      else io_return resolved_tab_id)"

definition replace_all_request :: "string \<Rightarrow> string \<Rightarrow> bool \<Rightarrow> string \<Rightarrow> jdict" where
  "replace_all_request find' replace_with match_case resolved_tab_id =
     (let op_body = [(''containsText'', JObj [(''text'', JStr find'), (''matchCase'', JBool match_case)]),
                     (''replaceText'', JStr replace_with)];
          op_body = (if resolved_tab_id \<noteq> []
                     then AList.update ''tabsCriteria'' (tabs_criteria resolved_tab_id) op_body
                     else op_body)
      in [(''replaceAllText'', JObj op_body)])"

definition occurrences_replaced :: "batch_response \<Rightarrow> int" where
  "occurrences_replaced result =
     (let replies = get_or (replies result) [\<lparr>replaceAllText = None\<rparr>] in
      case replies of
        [] \<Rightarrow> 0
      | r # _ \<Rightarrow> get_or (occurrencesChanged
                          (get_or (replaceAllText r) \<lparr>occurrencesChanged = None\<rparr>)) 0)"

definition replace_text ::
  "(string \<Rightarrow> string) \<Rightarrow> service \<Rightarrow> string \<Rightarrow> string \<Rightarrow> string \<Rightarrow> bool \<Rightarrow> string \<Rightarrow> string \<Rightarrow> json io" where
  "replace_text lower docs document_id find' replace_with match_case tab_id tab_title =
     io_bind (resolve_scope lower docs document_id tab_id tab_title) (\<lambda>resolved_tab_id.
     io_bind (execute_batchUpdate docs document_id
                [replace_all_request find' replace_with match_case resolved_tab_id])
       (\<lambda>result. io_return (JObj [(''status'', JStr ''ok''),
                                    (''occurrences_replaced'', JInt (occurrences_replaced result)),
                                    (''tabId'', JStr resolved_tab_id)])))"

definition batch_update ::
  "(string \<Rightarrow> string) \<Rightarrow> service \<Rightarrow> string \<Rightarrow> jdict list \<Rightarrow> string \<Rightarrow> string \<Rightarrow> json io" where
  "batch_update lower docs document_id requests tab_id tab_title =
     io_bind (resolve_scope lower docs document_id tab_id tab_title) (\<lambda>resolved_tab_id.
     io_bind (io_lift (scope_requests resolved_tab_id requests)) (\<lambda>requests.
     io_bind (execute_batchUpdate docs document_id requests)
       (\<lambda>result. io_return (JObj [(''status'', JStr ''ok''),
                                    (''replies_count'', JInt (int (length (get_or (replies result) [])))),
                                    (''documentId'', JStr (get_or (resp_documentId result) document_id)),
                                    (''tabId'', JStr resolved_tab_id)]))))"

section \<open>Reference definitions: the specification's wording and notions used in the statements\<close>

text \<open>
  Pre-order of one tab tree, as the specification words it: the parent first, then its
  children from left to right, each one level deeper than the parent.
\<close>

function tab_preorder :: "int \<Rightarrow> tab \<Rightarrow> (tab \<times> int) list" where
  "tab_preorder depth t =
     (t, depth) # concat (map (tab_preorder (depth + 1)) (get_or (childTabs t) []))"
  by pat_completeness auto
termination
proof (relation "measure (\<lambda>(depth, t). size t)")
  show "wf (measure (\<lambda>(depth, t). size t))" by simp
next
  fix depth :: int and t c :: tab
  assume "c \<in> set (get_or (childTabs t) [])"
  then obtain cs where "childTabs t = Some cs" "c \<in> set cs"
    by (cases "childTabs t") (auto simp: get_or_def)
  then have "size c < size t" by (rule size_child_tab)
  then show "((depth + 1, c), (depth, t)) \<in> measure (\<lambda>(depth, t). size t)" by simp
qed

declare tab_preorder.simps [simp del]

text \<open>The section emitted for one flattened entry when every tab is read.\<close>

definition tab_section :: "entry \<Rightarrow> string" where
  "tab_section e =
     replicate (nat (entry_depth e + 2)) CHR ''#'' @ '' ['' @ entry_title e @ '']''
       @ [CHR 0x0A, CHR 0x0A] @ extract_text_from_body (tab_body_of (entry_tab e))"

text \<open>What a successful rewrite leaves under one of the three keys.\<close>

fun scoped_value :: "string \<Rightarrow> json \<Rightarrow> json" where
  "scoped_value rid (JObj loc) =
     (if map_of loc ''tabId'' = None then JObj (AList.update ''tabId'' (JStr rid) loc)
      else JObj loc)"
| "scoped_value rid v = v"

text \<open>
  Well-formed edit requests: in the body of every operation, a value stored under one of the
  three keys is an object (a location or a range). On any other value the membership test or
  the assignment of the rewrite raises.
\<close>

fun is_obj :: "json \<Rightarrow> bool" where
  "is_obj (JObj d) = True"
| "is_obj v = False"

definition op_fields_ok :: "jdict \<Rightarrow> bool" where
  "op_fields_ok op_body =
     list_all (\<lambda>key. case map_of op_body key of None \<Rightarrow> True | Some v \<Rightarrow> is_obj v) scope_keys"

definition request_ok :: "jdict \<Rightarrow> bool" where
  "request_ok req =
     list_all (\<lambda>item. case snd item of JObj op_body \<Rightarrow> op_fields_ok op_body | _ \<Rightarrow> True) req"

definition well_formed_batch :: "jdict list \<Rightarrow> bool" where
  "well_formed_batch requests = list_all request_ok requests"

text \<open>
  Requests that carry explicit scopes: every value under one of the three keys is an object
  with a \<open>tabId\<close>, and every operation with a \<open>containsText\<close> has a \<open>tabsCriteria\<close>.
\<close>

definition op_scoped :: "jdict \<Rightarrow> bool" where
  "op_scoped op_body =
     (list_all (\<lambda>key. case map_of op_body key of
                         None \<Rightarrow> True
                       | Some (JObj loc) \<Rightarrow> map_of loc ''tabId'' \<noteq> None
                       | Some other \<Rightarrow> False) scope_keys
      \<and> (map_of op_body ''containsText'' = None \<or> map_of op_body ''tabsCriteria'' \<noteq> None))"

definition request_scoped :: "jdict \<Rightarrow> bool" where
  "request_scoped req =
     list_all (\<lambda>item. case snd item of JObj op_body \<Rightarrow> op_scoped op_body | _ \<Rightarrow> True) req"

definition explicitly_scoped :: "jdict list \<Rightarrow> bool" where
  "explicitly_scoped requests = list_all request_scoped requests"

text \<open>Whether a tool fetched the document.\<close>

fun is_fetch :: "api_call \<Rightarrow> bool" where
  "is_fetch (GetDocument document_id) = True"
| "is_fetch (BatchUpdate document_id requests) = False"

definition fetches :: "api_call list \<Rightarrow> bool" where
  "fetches calls = list_ex is_fetch calls"

text \<open>
  The rendering of a body as the specification words it: the markdown prefix of a named
  style, the text of one inline element, the lines emitted for one paragraph and for one
  structural element.
\<close>

definition spec_block_prefix :: "string \<Rightarrow> string" where
  "spec_block_prefix named_style =
     (if named_style = ''HEADING_1'' then replicate 1 CHR ''#'' @ '' ''
      else if named_style = ''HEADING_2'' then replicate 2 CHR ''#'' @ '' ''
      else if named_style = ''HEADING_3'' then replicate 3 CHR ''#'' @ '' ''
      else if named_style = ''HEADING_4'' then replicate 4 CHR ''#'' @ '' ''
      else if named_style = ''HEADING_5'' then replicate 5 CHR ''#'' @ '' ''
      else if named_style = ''HEADING_6'' then replicate 6 CHR ''#'' @ '' ''
      else if named_style = ''TITLE'' then ''# ''
      else if named_style = ''SUBTITLE'' then ''## ''
      else [])"

definition spec_run_text :: "paragraph_element \<Rightarrow> string" where
  "spec_run_text elem =
     (case textRun elem of None \<Rightarrow> [] | Some text_run \<Rightarrow> get_or (run_content text_run) [])"

definition spec_paragraph_lines :: "paragraph_rec \<Rightarrow> string list" where
  "spec_paragraph_lines para =
     (let line = rstrip_nl (concat (map spec_run_text (get_or (elements para) [])));
          prefix = spec_block_prefix
                     (get_or (namedStyleType (get_or (paragraphStyle para) empty_paragraph_style))
                        ''NORMAL_TEXT'')
      in if line \<noteq> [] then [prefix @ line]
         else if prefix = [] then [[]]
         else [])"

definition spec_element_lines :: "structural_element \<Rightarrow> string list" where
  "spec_element_lines element =
     (case paragraph_of element of None \<Rightarrow> [] | Some para \<Rightarrow> spec_paragraph_lines para)"

section \<open>Example data\<close>

definition props_of :: "string \<Rightarrow> string \<Rightarrow> tab_properties" where
  "props_of i t = \<lparr>tabId = Some i, title = Some t, index = None\<rparr>"

definition para_of :: "string \<Rightarrow> string \<Rightarrow> int \<Rightarrow> structural_element" where
  "para_of style txt e =
     \<lparr>paragraph_of = Some \<lparr>paragraphStyle = Some \<lparr>namedStyleType = Some style\<rparr>,
                              elements = Some [\<lparr>textRun = Some \<lparr>run_content = Some txt\<rparr>\<rparr>]\<rparr>,
      endIndex = Some e\<rparr>"

definition body_of :: "structural_element list \<Rightarrow> document_tab" where
  "body_of es = \<lparr>tab_body = Some \<lparr>content = Some es\<rparr>\<rparr>"

definition tab_D :: tab where
  "tab_D = Tab (Some (props_of ''t.d'' ''Drafts'')) None None"

definition tab_C :: tab where
  "tab_C = Tab (Some (props_of ''t.c'' ''NOTES'')) None (Some [tab_D])"

definition tab_B :: tab where
  "tab_B = Tab (Some (props_of ''t.b'' ''Notes''))
               (Some (body_of [para_of ''HEADING_2'' (''Intro'' @ [CHR 0x0A]) 7])) (Some [])"

definition tab_A :: tab where
  "tab_A = Tab (Some (props_of ''t.a'' ''Home''))
               (Some (body_of [para_of ''NORMAL_TEXT'' (''hello'' @ [CHR 0x0A]) 50]))
               (Some [tab_B, tab_C])"

definition doc_with_tabs :: document where
  "doc_with_tabs = \<lparr>doc_title = Some ''Plan'', doc_id = Some ''doc1'', doc_body = None,
                     doc_tabs = Some [tab_A]\<rparr>"

definition doc_without_tabs :: document where
  "doc_without_tabs = \<lparr>doc_title = Some ''Old'', doc_id = Some ''doc0'',
                        doc_body = Some \<lparr>content = Some [para_of ''TITLE'' ''Old'' 4]\<rparr>,
                        doc_tabs = None\<rparr>"

definition doc_no_end :: document where
  "doc_no_end = \<lparr>doc_title = None, doc_id = Some ''doc2'', doc_body = None,
                  doc_tabs = Some [Tab (Some (props_of ''t.x'' ''Table''))
                                       (Some (body_of [\<lparr>paragraph_of = None, endIndex = None\<rparr>]))
                                       None]\<rparr>"

definition service_of :: "document \<Rightarrow> service" where
  "service_of doc =
     \<lparr>documents_get = (\<lambda>document_id. Inr doc),
      documents_batchUpdate = (\<lambda>document_id requests.
         Inr \<lparr>replies = None, resp_documentId = Some document_id\<rparr>)\<rparr>"

definition example_batch :: "jdict list" where
  "example_batch =
     [[(''insertText'', JObj [(''location'', JObj [(''index'', JInt 1)]), (''text'', JStr ''hi'')])],
      [(''replaceAllText'', JObj [(''containsText'', JObj [(''text'', JStr ''a'')]),
                                   (''replaceText'', JStr ''b'')])],
      [(''updateTextStyle'',
          JObj [(''range'', JObj [(''startIndex'', JInt 1), (''endIndex'', JInt 5),
                                   (''tabId'', JStr ''t.other'')]),
                (''fields'', JStr ''bold'')])]]"

definition example_batch_scoped :: "jdict list" where
  "example_batch_scoped =
     [[(''insertText'', JObj [(''location'', JObj [(''index'', JInt 1), (''tabId'', JStr ''tab123'')]),
                              (''text'', JStr ''hi'')])],
      [(''replaceAllText'', JObj [(''containsText'', JObj [(''text'', JStr ''a'')]),
                                   (''replaceText'', JStr ''b''),
                                   (''tabsCriteria'', JObj [(''tabIds'', JList [JStr ''tab123''])])])],
      [(''updateTextStyle'',
          JObj [(''range'', JObj [(''startIndex'', JInt 1), (''endIndex'', JInt 5),
                                   (''tabId'', JStr ''t.other'')]),
                (''fields'', JStr ''bold'')])]]"

definition example_body :: body where
  "example_body =
     \<lparr>content = Some
        [para_of ''HEADING_2'' (''Intro'' @ [CHR 0x0A]) 7,
         para_of ''NORMAL_TEXT'' [CHR 0x0A] 8,
         para_of ''HEADING_1'' [CHR 0x0A] 9,
         \<lparr>paragraph_of = None, endIndex = Some 12\<rparr>,
         \<lparr>paragraph_of = Some \<lparr>paragraphStyle = None,
                                  elements = Some [\<lparr>textRun = Some \<lparr>run_content = Some ''te''\<rparr>\<rparr>,
                                                   \<lparr>textRun = None\<rparr>,
                                                   \<lparr>textRun = Some \<lparr>run_content = Some (''xt'' @ [CHR 0x0A, CHR 0x0A])\<rparr>\<rparr>]\<rparr>,
          endIndex = Some 18\<rparr>]\<rparr>"

section \<open>Tab tree flattener: properties\<close>

lemma fold_extend: "fold (\<lambda>x acc. acc @ F x) xs acc = acc @ concat (map F xs)"
  by (induction xs arbitrary: acc) auto

lemma fold_append_extend:
  "fold (\<lambda>x acc. fold (\<lambda>y acc. acc @ F y) (cs x) (acc @ [E x])) xs acc
     = acc @ concat (map (\<lambda>x. E x # concat (map F (cs x))) xs)"
  by (induction xs arbitrary: acc) (auto simp: fold_extend)

lemma flatten_tabs_concat:
  "flatten_tabs tabs depth =
     concat (map (\<lambda>tab. mk_entry tab depth #
                    concat (map (\<lambda>child. flatten_tabs [child] (depth + 1))
                              (get_or (childTabs tab) []))) tabs)"
  by (subst flatten_tabs.simps) (simp add: fold_append_extend)

lemma flatten_tabs_single:
  "flatten_tabs [t] depth = map (\<lambda>(t, d). mk_entry t d) (tab_preorder depth t)"
proof (induction depth t rule: tab_preorder.induct)
  case (1 depth t)
  have "flatten_tabs [t] depth =
          mk_entry t depth #
            concat (map (\<lambda>child. flatten_tabs [child] (depth + 1)) (get_or (childTabs t) []))"
    by (subst flatten_tabs_concat) simp
  also have "concat (map (\<lambda>child. flatten_tabs [child] (depth + 1)) (get_or (childTabs t) []))
           = concat (map (\<lambda>child. map (\<lambda>(t, d). mk_entry t d) (tab_preorder (depth + 1) child))
                      (get_or (childTabs t) []))"
    using "1.IH" by (metis (no_types, lifting) map_eq_conv)
  finally show ?case
    by (subst tab_preorder.simps) (simp add: map_concat comp_def)
qed

lemma flatten_tabs_singles:
  "flatten_tabs tabs depth = concat (map (\<lambda>tab. flatten_tabs [tab] depth) tabs)"
  by (subst flatten_tabs_concat, subst (2) flatten_tabs_concat) simp

lemma flatten_tabs_preorder:
  "flatten_tabs tabs depth =
     map (\<lambda>(t, d). mk_entry t d) (concat (map (tab_preorder depth) tabs))"
  by (subst flatten_tabs_singles) (simp add: flatten_tabs_single map_concat comp_def)

lemma flatten_tabs_Nil [simp]: "flatten_tabs [] depth = []"
  by (subst flatten_tabs_concat) simp

lemma flatten_tabs_Cons:
  "flatten_tabs (t # ts) depth =
     mk_entry t depth # flatten_tabs (get_or (childTabs t) []) (depth + 1) @ flatten_tabs ts depth"
proof -
  have "flatten_tabs (t # ts) depth =
          mk_entry t depth #
            concat (map (\<lambda>child. flatten_tabs [child] (depth + 1)) (get_or (childTabs t) []))
            @ flatten_tabs ts depth"
    by (subst flatten_tabs_concat, subst (3) flatten_tabs_concat) simp
  then show ?thesis
    by (subst (2) flatten_tabs_singles) simp
qed

text \<open>
  C7. Flattening a forest of tabs lists the tabs in pre-order: a tab at its depth, then the
  flattening of its children one level deeper, then its later siblings at the same depth;
  top-level tabs have depth 0. No tabs give no entries. The tree A(B, C(D)) gives A at
  depth 0, B at depth 1, C at depth 1 and D at depth 2, in this order.
\<close>

theorem flatten_tabs_is_preorder:
  "flatten_tabs tabs 0 = map (\<lambda>(t, d). mk_entry t d) (concat (map (tab_preorder 0) tabs))
   \<and> flatten_tabs [] 0 = []
   \<and> flatten_tabs (t # ts) depth =
        mk_entry t depth # flatten_tabs (get_or (childTabs t) []) (depth + 1)
          @ flatten_tabs ts depth
   \<and> entry_depth (mk_entry t depth) = depth \<and> entry_tab (mk_entry t depth) = t
   \<and> (let D = Tab pd bd None;
           C = Tab pc bc (Some [D]);
           B = Tab pb bb None;
           A = Tab pa ba (Some [B, C])
       in flatten_tabs [A] 0 = [mk_entry A 0, mk_entry B 1, mk_entry C 1, mk_entry D 2])"
proof -
  have example:
    "flatten_tabs [Tab pa ba (Some [Tab pb bb None, Tab pc bc (Some [Tab pd bd None])])] 0 =
       [mk_entry (Tab pa ba (Some [Tab pb bb None, Tab pc bc (Some [Tab pd bd None])])) 0,
        mk_entry (Tab pb bb None) 1,
        mk_entry (Tab pc bc (Some [Tab pd bd None])) 1,
        mk_entry (Tab pd bd None) 2]"
    by (simp add: flatten_tabs_Cons get_or_def)
  have fields: "entry_depth (mk_entry t depth) = depth \<and> entry_tab (mk_entry t depth) = t"
    by (simp add: mk_entry_def Let_def)
  show ?thesis
    using example fields flatten_tabs_Cons [of t ts depth]
    by (simp add: flatten_tabs_preorder [symmetric] Let_def)
qed

theorem flatten_tabs_is_preorder_witness:
  "map (\<lambda>e. (entry_tabId e, entry_title e, entry_depth e)) (flatten_tabs [tab_A] 0) =
     [(''t.a'', ''Home'', 0), (''t.b'', ''Notes'', 1), (''t.c'', ''NOTES'', 1),
      (''t.d'', ''Drafts'', 2)]"
proof -
  have "flatten_tabs [tab_A] 0 =
          mk_entry tab_A 0 # flatten_tabs (get_or (childTabs tab_A) []) (0 + 1) @ flatten_tabs [] 0"
    using flatten_tabs_is_preorder [of "[tab_A]" tab_A "[]" 0] by blast
  then show ?thesis
    by (simp add: flatten_tabs_Cons tab_A_def tab_B_def tab_C_def tab_D_def get_or_def
        mk_entry_def props_of_def empty_props_def)
qed

section \<open>Tab resolver: properties\<close>

lemma find_tab_loop_find:
  "find_tab_loop lower flat tab_id tab_title =
     map_option entry_tab
       (List.find (\<lambda>e. (tab_id \<noteq> [] \<and> entry_tabId e = tab_id)
                       \<or> (tab_title \<noteq> [] \<and> lower (entry_title e) = lower tab_title)) flat)"
  by (induction flat) auto

lemma find_tab_loop_None:
  "find_tab_loop lower flat tab_id tab_title = None \<longleftrightarrow>
     (\<forall>e \<in> set flat. \<not> (tab_id \<noteq> [] \<and> entry_tabId e = tab_id)
                     \<and> \<not> (tab_title \<noteq> [] \<and> lower (entry_title e) = lower tab_title))"
  by (induction flat) auto

text \<open>
  \<^verbatim>\<open>str.lower()\<close> maps the empty string, and no other, to the empty string. Under this
  property of
  \<open>lower\<close> a tab found by \<^verbatim>\<open>_find_tab\<close> is never the empty dictionary.
\<close>

lemma ascii_lower_Nil: "(ascii_lower s = []) = (s = [])"
  by (simp add: ascii_lower_def)

lemma find_tab_loop_truthy:
  assumes nonempty: "\<And>s. (lower s = []) = (s = [])"
  shows "find_tab_loop lower flat tab_id tab_title = Some t \<Longrightarrow>
    \<forall>e \<in> set flat. e = mk_entry (entry_tab e) (entry_depth e) \<Longrightarrow> t \<noteq> Tab None None None"
proof (induction flat)
  case Nil
  then show ?case by simp
next
  case (Cons e flat)
  have e: "e = mk_entry (entry_tab e) (entry_depth e)" using Cons.prems(2) by simp
  have empty: "entry_tab e = Tab None None None \<Longrightarrow> entry_tabId e = [] \<and> entry_title e = []"
    by (subst e, subst (2) e) (simp add: mk_entry_def get_or_def empty_props_def)
  show ?case
  proof (cases "(tab_id \<noteq> [] \<and> entry_tabId e = tab_id)
                 \<or> (tab_title \<noteq> [] \<and> lower (entry_title e) = lower tab_title)")
    case True
    then have "t = entry_tab e" using Cons.prems(1) by (auto split: if_splits)
    moreover have "entry_tabId e \<noteq> [] \<or> entry_title e \<noteq> []"
      using True nonempty by metis
    ultimately show ?thesis using empty by auto
  next
    case False
    then have "find_tab_loop lower flat tab_id tab_title = Some t"
      using Cons.prems(1) by (auto split: if_splits)
    then show ?thesis using Cons.IH Cons.prems(2) by simp
  qed
qed

lemma flatten_tabs_entries:
  "\<forall>e \<in> set (flatten_tabs tabs depth). e = mk_entry (entry_tab e) (entry_depth e)"
  by (auto simp: flatten_tabs_preorder mk_entry_def Let_def)

lemma find_tab_truthy:
  assumes "\<And>s. (lower s = []) = (s = [])"
    and "find_tab lower tabs tab_id tab_title = Some t"
  shows "truthy_tab (Some t)"
  using find_tab_loop_truthy [of lower, OF assms(1) _ flatten_tabs_entries] assms(2)
  unfolding find_tab_def truthy_tab_def by simp

lemma resolve_tab_cases:
  assumes nonempty: "\<And>s. (lower s = []) = (s = [])"
  shows "resolve_tab lower doc tab_id tab_title =
     (let tabs = get_or (doc_tabs doc) [] in
      if tabs = [] then Inr (get_or (doc_body doc) empty_body, [])
      else if tab_id = [] \<and> tab_title = [] then Inr (tab_body_of (hd tabs), tab_id_of (hd tabs))
      else (case find_tab lower tabs tab_id tab_title of
              None \<Rightarrow> Inl (TabNotFound tab_id tab_title)
            | Some t \<Rightarrow> Inr (tab_body_of t, tab_id_of t)))"
proof (cases "find_tab lower (get_or (doc_tabs doc) []) tab_id tab_title")
  case None
  then show ?thesis
    by (auto simp: resolve_tab_def Let_def truthy_tab_def split: list.splits)
next
  case (Some t)
  then show ?thesis
    using find_tab_truthy [of lower, OF nonempty Some]
    by (auto simp: resolve_tab_def Let_def split: list.splits)
qed

lemma io_bind_Inl [simp]: "io_bind (calls, Inl e) f = (calls, Inl e)"
  by (simp add: io_bind_def)

lemma io_bind_Inr [simp]: "io_bind (calls, Inr x) f = (calls @ fst (f x), snd (f x))"
  by (simp add: io_bind_def split: prod.splits)

lemma io_bind_return [simp]: "io_bind (io_return x) f = f x"
  by (simp add: io_return_def)

lemma io_bind_lift_Inl [simp]: "io_bind (io_lift (Inl e)) f = ([], Inl e)"
  by (simp add: io_lift_def)

lemma io_bind_lift_Inr [simp]: "io_bind (io_lift (Inr x)) f = f x"
  by (simp add: io_lift_def)

lemma get_doc_with_tabs_ok:
  "documents_get docs document_id = Inr doc \<Longrightarrow>
   io_bind (get_doc_with_tabs docs document_id) f =
     (GetDocument document_id # fst (f doc), snd (f doc))"
  by (simp add: get_doc_with_tabs_def remote_def)

lemma example_children:
  "childTabs tab_A = Some [tab_B, tab_C]" "childTabs tab_B = Some []"
  "childTabs tab_C = Some [tab_D]" "childTabs tab_D = None"
  by (simp_all add: tab_A_def tab_B_def tab_C_def tab_D_def)

lemma example_tabs: "get_or (doc_tabs doc_with_tabs) [] = [tab_A]"
  by (simp add: doc_with_tabs_def get_or_def)

lemma example_flat:
  "flatten_tabs [tab_A] 0 = [mk_entry tab_A 0, mk_entry tab_B 1, mk_entry tab_C 1, mk_entry tab_D 2]"
  by (simp add: flatten_tabs_Cons example_children get_or_def)

lemma example_entries:
  "entry_tabId (mk_entry tab_A d) = ''t.a''" "entry_title (mk_entry tab_A d) = ''Home''"
  "entry_tabId (mk_entry tab_B d) = ''t.b''" "entry_title (mk_entry tab_B d) = ''Notes''"
  "entry_tabId (mk_entry tab_C d) = ''t.c''" "entry_title (mk_entry tab_C d) = ''NOTES''"
  "entry_tabId (mk_entry tab_D d) = ''t.d''" "entry_title (mk_entry tab_D d) = ''Drafts''"
  by (simp_all add: mk_entry_def tab_A_def tab_B_def tab_C_def tab_D_def props_of_def get_or_def)

lemma mk_entry_fields [simp]:
  "entry_depth (mk_entry t d) = d" "entry_tab (mk_entry t d) = t"
  by (simp_all add: mk_entry_def Let_def)

lemma example_tab_ids:
  "tab_id_of tab_A = ''t.a''" "tab_id_of tab_B = ''t.b''" "tab_id_of tab_C = ''t.c''"
  by (simp_all add: tab_id_of_def tab_A_def tab_B_def tab_C_def props_of_def get_or_def)

lemma lower_examples:
  "ascii_lower ''Home'' = ''home''" "ascii_lower ''Notes'' = ''notes''"
  "ascii_lower ''NOTES'' = ''notes''" "ascii_lower ''notes'' = ''notes''"
  "ascii_lower ''Drafts'' = ''drafts''" "ascii_lower ''missing'' = ''missing''"
  "ascii_lower ''Table'' = ''table''" "ascii_lower ''table'' = ''table''"
  by (simp_all add: ascii_lower_def ascii_lower_char_def get_or_def)

lemmas resolve_tab_ascii = resolve_tab_cases [of ascii_lower, OF ascii_lower_Nil]

text \<open>
  C1. Looked up with a non-empty identifier, the resolver is claimed to return the first entry
  that carries this identifier, titles being compared only when no identifier is given. The
  loop of \<^verbatim>\<open>_find_tab\<close> compares identifier and title on every entry in turn, so with
  both given an earlier entry whose title matches is returned. In the example document the
  identifier of tab C together with the title \<open>notes\<close> resolves to tab B, which comes first in
  pre-order and is titled \<open>Notes\<close>; the identifier alone resolves to tab C. (The titles are
  ASCII, where \<open>ascii_lower\<close> is \<^verbatim>\<open>str.lower()\<close>.)
\<close>

theorem resolve_tab_title_shadows_identifier:
  "resolve_tab ascii_lower doc_with_tabs ''t.c'' ''notes'' = Inr (tab_body_of tab_B, ''t.b'')
   \<and> resolve_tab ascii_lower doc_with_tabs ''t.c'' [] = Inr (tab_body_of tab_C, ''t.c'')"
  by (simp add: resolve_tab_ascii example_tabs find_tab_def example_flat example_entries
      lower_examples example_tab_ids)

theorem resolve_tab_title_shadows_identifier_witness:
  "map_sum id snd (resolve_tab ascii_lower doc_with_tabs ''t.c'' ''notes'') = Inr ''t.b''
   \<and> map_sum id snd (resolve_tab ascii_lower doc_with_tabs ''t.c'' []) = Inr ''t.c''"
  using resolve_tab_title_shadows_identifier by simp

text \<open>
  C2, as stated, fails on a document without tabs: no entry matches the identifier \<open>zzz\<close>
  (there is no entry at all), and the resolver returns the legacy body with an empty
  identifier instead of failing.
\<close>

theorem resolve_tab_without_tabs_ignores_request:
  "flatten_tabs (get_or (doc_tabs doc_without_tabs) []) 0 = []
   \<and> resolve_tab ascii_lower doc_without_tabs ''zzz'' [] =
       Inr (\<lparr>content = Some [para_of ''TITLE'' ''Old'' 4]\<rparr>, [])"
  by (simp add: resolve_tab_def doc_without_tabs_def get_or_def)

text \<open>
  C2, amended. For a document that has at least one tab: when the identifier or the title is
  not empty and no flattened entry matches (neither the identifier, nor the title up to
  case, whatever \<^verbatim>\<open>str.lower()\<close> does), resolution fails with the tab-not-found error
  carrying both requested values, and every tool that asked for the tab stops after fetching
  the document, without issuing an edit. For a document without tabs the resolver returns
  the legacy body (the empty body when there is none) and the empty identifier, whatever
  identifier and title are requested.
\<close>

theorem resolve_tab_not_found:
  "(get_or (doc_tabs doc) [] \<noteq> []
    \<and> (tab_id \<noteq> [] \<or> tab_title \<noteq> [])
    \<and> (\<forall>e \<in> set (flatten_tabs (get_or (doc_tabs doc) []) 0).
          \<not> (tab_id \<noteq> [] \<and> entry_tabId e = tab_id)
          \<and> \<not> (tab_title \<noteq> [] \<and> lower (entry_title e) = lower tab_title))
    \<and> documents_get docs document_id = Inr doc
    \<longrightarrow>
      resolve_tab lower doc tab_id tab_title = Inl (TabNotFound tab_id tab_title)
    \<and> read_document lower docs document_id tab_id tab_title =
         ([GetDocument document_id], Inl (TabNotFound tab_id tab_title))
    \<and> append_text lower docs document_id new_text tab_id tab_title =
         ([GetDocument document_id], Inl (TabNotFound tab_id tab_title))
    \<and> (tab_id = [] \<longrightarrow>
          insert_text lower docs document_id new_text index' tab_id tab_title =
            ([GetDocument document_id], Inl (TabNotFound tab_id tab_title))
        \<and> replace_text lower docs document_id find' replace_with match_case tab_id tab_title =
            ([GetDocument document_id], Inl (TabNotFound tab_id tab_title))
        \<and> batch_update lower docs document_id requests tab_id tab_title =
            ([GetDocument document_id], Inl (TabNotFound tab_id tab_title))))
   \<and> (get_or (doc_tabs doc) [] = [] \<longrightarrow>
        resolve_tab lower doc tab_id tab_title = Inr (get_or (doc_body doc) empty_body, []))"
proof -
  have without: "resolve_tab lower doc tab_id tab_title = Inr (get_or (doc_body doc) empty_body, [])"
    if "get_or (doc_tabs doc) [] = []"
    using that by (simp add: resolve_tab_def)
  have failing: "resolve_tab lower doc tab_id tab_title = Inl (TabNotFound tab_id tab_title)
    \<and> read_document lower docs document_id tab_id tab_title =
         ([GetDocument document_id], Inl (TabNotFound tab_id tab_title))
    \<and> append_text lower docs document_id new_text tab_id tab_title =
         ([GetDocument document_id], Inl (TabNotFound tab_id tab_title))
    \<and> (tab_id = [] \<longrightarrow>
          insert_text lower docs document_id new_text index' tab_id tab_title =
            ([GetDocument document_id], Inl (TabNotFound tab_id tab_title))
        \<and> replace_text lower docs document_id find' replace_with match_case tab_id tab_title =
            ([GetDocument document_id], Inl (TabNotFound tab_id tab_title))
        \<and> batch_update lower docs document_id requests tab_id tab_title =
            ([GetDocument document_id], Inl (TabNotFound tab_id tab_title)))"
    if tabs: "get_or (doc_tabs doc) [] \<noteq> []"
      and given: "tab_id \<noteq> [] \<or> tab_title \<noteq> []"
      and nomatch: "\<forall>e \<in> set (flatten_tabs (get_or (doc_tabs doc) []) 0).
                     \<not> (tab_id \<noteq> [] \<and> entry_tabId e = tab_id)
                     \<and> \<not> (tab_title \<noteq> [] \<and> lower (entry_title e) = lower tab_title)"
      and fetch: "documents_get docs document_id = Inr doc"
  proof -
    have "find_tab lower (get_or (doc_tabs doc) []) tab_id tab_title = None"
      unfolding find_tab_def using nomatch by (simp only: find_tab_loop_None)
    then have resolve: "resolve_tab lower doc tab_id tab_title = Inl (TabNotFound tab_id tab_title)"
      using tabs given by (auto simp: resolve_tab_def Let_def truthy_tab_def split: list.splits)
    have read: "read_document lower docs document_id tab_id tab_title =
           ([GetDocument document_id], Inl (TabNotFound tab_id tab_title))"
      using given by (auto simp: read_document_def get_doc_with_tabs_ok [OF fetch] Let_def resolve)
    have append: "append_text lower docs document_id new_text tab_id tab_title =
           ([GetDocument document_id], Inl (TabNotFound tab_id tab_title))"
      by (simp add: append_text_def get_doc_with_tabs_ok [OF fetch] resolve)
    have scope: "tab_id = [] \<Longrightarrow> resolve_scope lower docs document_id [] tab_title =
           ([GetDocument document_id], Inl (TabNotFound [] tab_title))"
      using given resolve by (auto simp: resolve_scope_def get_doc_with_tabs_ok [OF fetch] Let_def)
    have insert: "tab_id = [] \<Longrightarrow> insert_text lower docs document_id new_text index' tab_id tab_title =
           ([GetDocument document_id], Inl (TabNotFound tab_id tab_title))"
      using given resolve by (auto simp: insert_text_def get_doc_with_tabs_ok [OF fetch] Let_def)
    have replace: "tab_id = [] \<Longrightarrow>
         replace_text lower docs document_id find' replace_with match_case tab_id tab_title =
           ([GetDocument document_id], Inl (TabNotFound tab_id tab_title))"
      by (simp add: replace_text_def scope)
    have batch: "tab_id = [] \<Longrightarrow> batch_update lower docs document_id requests tab_id tab_title =
           ([GetDocument document_id], Inl (TabNotFound tab_id tab_title))"
      by (simp add: batch_update_def scope)
    show ?thesis using resolve read append insert replace batch by blast
  qed
  show ?thesis using without failing by blast
qed

theorem resolve_tab_not_found_witness:
  "resolve_tab ascii_lower doc_with_tabs ''zzz'' [] = Inl (TabNotFound ''zzz'' [])
   \<and> append_text ascii_lower (service_of doc_with_tabs) ''doc1'' ''hi'' ''zzz'' [] =
       ([GetDocument ''doc1''], Inl (TabNotFound ''zzz'' []))
   \<and> insert_text ascii_lower (service_of doc_with_tabs) ''doc1'' ''hi'' 1 [] ''missing'' =
       ([GetDocument ''doc1''], Inl (TabNotFound [] ''missing''))
   \<and> resolve_tab ascii_lower doc_without_tabs ''t.a'' ''Home'' =
       Inr (\<lparr>content = Some [para_of ''TITLE'' ''Old'' 4]\<rparr>, [])"
proof -
  have tabs: "get_or (doc_tabs doc_with_tabs) [] \<noteq> []"
    by (simp add: example_tabs)
  have fetch: "documents_get (service_of doc_with_tabs) ''doc1'' = Inr doc_with_tabs"
    by (simp add: service_of_def)
  have no_id: "\<forall>e \<in> set (flatten_tabs (get_or (doc_tabs doc_with_tabs) []) 0).
                 \<not> (''zzz'' \<noteq> [] \<and> entry_tabId e = ''zzz'')
                 \<and> \<not> ([] \<noteq> [] \<and> ascii_lower (entry_title e) = ascii_lower [])"
    by (simp add: example_tabs example_flat example_entries)
  have no_title: "\<forall>e \<in> set (flatten_tabs (get_or (doc_tabs doc_with_tabs) []) 0).
                 \<not> ([] \<noteq> [] \<and> entry_tabId e = [])
                 \<and> \<not> (''missing'' \<noteq> [] \<and> ascii_lower (entry_title e) = ascii_lower ''missing'')"
    by (simp add: example_tabs example_flat example_entries lower_examples)
  have none: "get_or (doc_tabs doc_without_tabs) [] = []"
    "get_or (doc_body doc_without_tabs) empty_body = \<lparr>content = Some [para_of ''TITLE'' ''Old'' 4]\<rparr>"
    by (simp_all add: doc_without_tabs_def get_or_def)
  have given: "''zzz'' \<noteq> []" "''missing'' \<noteq> []" by simp_all
  show ?thesis
    using resolve_tab_not_found
            [where lower = ascii_lower and doc = doc_with_tabs and tab_id = "''zzz''"
               and tab_title = "[]" and docs = "service_of doc_with_tabs"
               and document_id = "''doc1''" and new_text = "''hi''"]
          resolve_tab_not_found
            [where lower = ascii_lower and doc = doc_with_tabs and tab_id = "[]"
               and tab_title = "''missing''" and docs = "service_of doc_with_tabs"
               and document_id = "''doc1''" and new_text = "''hi''" and index' = 1]
          resolve_tab_not_found
            [where lower = ascii_lower and doc = doc_without_tabs and tab_id = "''t.a''"
               and tab_title = "''Home''"]
          tabs fetch no_id no_title none given
    by simp
qed

section \<open>Offset calculator and append_text: properties\<close>

lemma execute_batchUpdate_calls [simp]:
  "fst (io_bind (execute_batchUpdate docs document_id requests) (\<lambda>x. io_return (g x))) =
     [BatchUpdate document_id requests]"
  by (cases "documents_batchUpdate docs document_id requests")
     (simp_all add: execute_batchUpdate_def remote_def io_return_def)

lemma execute_batchUpdate_result [simp]:
  "snd (io_bind (execute_batchUpdate docs document_id requests) (\<lambda>x. io_return (g x))) \<noteq>
     Inl (TabNotFound i t)"
  by (cases "documents_batchUpdate docs document_id requests")
     (simp_all add: execute_batchUpdate_def remote_def io_return_def)

lemma append_text_calls:
  assumes "documents_get docs document_id = Inr doc"
    and "resolve_tab lower doc tab_id tab_title = Inr (b, resolved)"
  shows "fst (append_text lower docs document_id new_text tab_id tab_title) =
     [GetDocument document_id,
      BatchUpdate document_id
        [[(''insertText'',
           JObj [(''location'',
                  JObj (if resolved \<noteq> []
                        then [(''index'', JInt (body_end_index b)), (''tabId'', JStr resolved)]
                        else [(''index'', JInt (body_end_index b))])),
                 (''text'', JStr (if body_end_index b > 1 then CHR 0x0A # new_text
                                  else new_text))])]]]"
  using assms by (simp add: append_text_def get_doc_with_tabs_ok Let_def insert_text_request_def)

text \<open>
  C5. The append offset of a body is 1 when the body has no structural elements, and the end
  index of its last structural element minus one otherwise. When \<^verbatim>\<open>append_text\<close> finds an
  offset greater than 1, the one edit it issues is an \<open>insertText\<close> at that offset whose text
  is the given text with exactly one line feed put in front; on an empty body the edit is an
  \<open>insertText\<close> of the unchanged text at offset 1.
\<close>

theorem append_offset:
  "(get_or (content b) [] = [] \<longrightarrow> body_end_index b = 1)
   \<and> (get_or (content b) [] \<noteq> [] \<and> endIndex (last (get_or (content b) [])) = Some e
        \<longrightarrow> body_end_index b = e - 1)
   \<and> (documents_get docs document_id = Inr doc
        \<and> resolve_tab lower doc tab_id tab_title = Inr (b, resolved) \<longrightarrow>
        (body_end_index b > 1 \<longrightarrow>
           fst (append_text lower docs document_id new_text tab_id tab_title) =
             [GetDocument document_id,
              BatchUpdate document_id
                [[(''insertText'',
                   JObj [(''location'',
                          JObj (if resolved \<noteq> []
                                then [(''index'', JInt (body_end_index b)),
                                      (''tabId'', JStr resolved)]
                                else [(''index'', JInt (body_end_index b))])),
                         (''text'', JStr (CHR 0x0A # new_text))])]]])
      \<and> (get_or (content b) [] = [] \<longrightarrow>
           fst (append_text lower docs document_id new_text tab_id tab_title) =
             [GetDocument document_id,
              BatchUpdate document_id
                [[(''insertText'',
                   JObj [(''location'',
                          JObj (if resolved \<noteq> []
                                then [(''index'', JInt 1), (''tabId'', JStr resolved)]
                                else [(''index'', JInt 1)])),
                         (''text'', JStr new_text)])]]]))"
proof -
  have empty: "get_or (content b) [] = [] \<Longrightarrow> body_end_index b = 1"
    by (simp add: body_end_index_def)
  have last: "get_or (content b) [] \<noteq> [] \<Longrightarrow> endIndex (last (get_or (content b) [])) = Some e
      \<Longrightarrow> body_end_index b = e - 1"
    by (simp add: body_end_index_def Let_def get_or_def)
  show ?thesis
    using empty last by (auto simp: append_text_calls)
qed

lemma example_body_A:
  "tab_body_of tab_A = \<lparr>content = Some [para_of ''NORMAL_TEXT'' (''hello'' @ [CHR 0x0A]) 50]\<rparr>"
  by (simp add: tab_body_of_def tab_A_def body_of_def get_or_def)

theorem append_offset_witness:
  "body_end_index \<lparr>content = None\<rparr> = 1
   \<and> body_end_index (tab_body_of tab_A) = 49
   \<and> fst (append_text ascii_lower (service_of doc_with_tabs) ''doc1'' ''hi'' ''t.a'' []) =
       [GetDocument ''doc1'',
        BatchUpdate ''doc1''
          [[(''insertText'',
             JObj [(''location'', JObj [(''index'', JInt 49), (''tabId'', JStr ''t.a'')]),
                   (''text'', JStr (CHR 0x0A # ''hi''))])]]]"
proof -
  have fetch: "documents_get (service_of doc_with_tabs) ''doc1'' = Inr doc_with_tabs"
    by (simp add: service_of_def)
  have resolve: "resolve_tab ascii_lower doc_with_tabs ''t.a'' [] = Inr (tab_body_of tab_A, ''t.a'')"
    by (simp add: resolve_tab_ascii example_tabs find_tab_def example_flat example_entries
        example_tab_ids)
  have content: "get_or (content (tab_body_of tab_A)) [] \<noteq> []
      \<and> endIndex (last (get_or (content (tab_body_of tab_A)) [])) = Some 50"
    by (simp add: example_body_A get_or_def para_of_def)
  have none: "get_or (content \<lparr>content = None\<rparr>) [] = []"
    by (simp add: get_or_def)
  show ?thesis
    using append_offset
            [where b = "tab_body_of tab_A" and e = 50 and docs = "service_of doc_with_tabs"
               and document_id = "''doc1''" and doc = doc_with_tabs and lower = ascii_lower
               and tab_id = "''t.a''" and tab_title = "[]" and resolved = "''t.a''"
               and new_text = "''hi''"]
          append_offset
            [where b = "\<lparr>content = None\<rparr>" and e = 0 and docs = "service_of doc_with_tabs"
               and document_id = "''doc1''" and doc = doc_with_tabs and lower = ascii_lower
               and tab_id = "[]" and tab_title = "[]" and resolved = "[]" and new_text = "[]"]
          fetch resolve content none
    by simp
qed

text \<open>
  C10. When the last structural element of a non-empty body records no end index, the append
  offset is 0 (the default end index 1, minus one), and the one edit \<^verbatim>\<open>append_text\<close>
  issues is an \<open>insertText\<close> of the unchanged text, with no line feed in front, at index 0.
\<close>

theorem missing_end_index_offset:
  assumes "content b = Some es" and "es \<noteq> []" and "endIndex (last es) = None"
    and "documents_get docs document_id = Inr doc"
    and "resolve_tab lower doc tab_id tab_title = Inr (b, resolved)"
  shows "body_end_index b = 0
     \<and> fst (append_text lower docs document_id new_text tab_id tab_title) =
         [GetDocument document_id,
          BatchUpdate document_id
            [[(''insertText'',
               JObj [(''location'',
                      JObj (if resolved \<noteq> [] then [(''index'', JInt 0), (''tabId'', JStr resolved)]
                            else [(''index'', JInt 0)])),
                     (''text'', JStr new_text)])]]]"
proof -
  have "body_end_index b = 0"
    using assms(1-3) by (simp add: body_end_index_def get_or_def)
  then show ?thesis
    using append_text_calls [OF assms(4,5)] by simp
qed

theorem missing_end_index_offset_witness:
  "body_end_index \<lparr>content = Some [\<lparr>paragraph_of = None, endIndex = None\<rparr>]\<rparr> = 0
   \<and> fst (append_text ascii_lower (service_of doc_no_end) ''doc2'' ''hi'' [] ''table'') =
       [GetDocument ''doc2'',
        BatchUpdate ''doc2''
          [[(''insertText'',
             JObj [(''location'', JObj [(''index'', JInt 0), (''tabId'', JStr ''t.x'')]),
                   (''text'', JStr ''hi'')])]]]"
proof -
  let ?b = "\<lparr>content = Some [\<lparr>paragraph_of = None, endIndex = None\<rparr>]\<rparr>"
  have fetch: "documents_get (service_of doc_no_end) ''doc2'' = Inr doc_no_end"
    by (simp add: service_of_def)
  have resolve: "resolve_tab ascii_lower doc_no_end [] ''table'' = Inr (?b, ''t.x'')"
    by (simp add: resolve_tab_ascii doc_no_end_def get_or_def find_tab_def flatten_tabs_Cons
        mk_entry_def props_of_def lower_examples tab_body_of_def tab_id_of_def body_of_def)
  show ?thesis
    using missing_end_index_offset
            [where b = ?b and docs = "service_of doc_no_end" and document_id = "''doc2''"
               and doc = doc_no_end and lower = ascii_lower and tab_id = "[]"
               and tab_title = "''table''" and resolved = "''t.x''" and new_text = "''hi''",
             OF _ _ _ fetch resolve]
    by simp
qed

section \<open>read_document: properties\<close>

lemma fold_section_step:
  "fold section_step flat sections = sections @ map tab_section flat"
  by (induction flat arbitrary: sections) (simp_all add: section_step_def tab_section_def Let_def)

lemma join_Cons: "join sep (p # ps) = p @ concat (map (\<lambda>q. sep @ q) ps)"
  by (induction ps arbitrary: p) simp_all

text \<open>
  C8. On a document that has tabs, \<^verbatim>\<open>read_document\<close> called with no tab identifier and no
  tab title fetches the document once and returns: the document title as a level-1 header
  line, then, for every flattened entry in the flattener's order, the delimiter (an empty
  line, three hyphens, an empty line) followed by that tab's section: a header with
  depth + 2 hash marks and the tab title in brackets, an empty line, and the extractor's
  rendering of that tab's own body.
\<close>

theorem read_document_all_tabs:
  assumes "documents_get docs document_id = Inr doc"
    and "get_or (doc_tabs doc) [] \<noteq> []"
  shows "read_document lower docs document_id [] [] =
     ([GetDocument document_id],
      Inr ((''# '' @ get_or (doc_title doc) ''Untitled'' @ [CHR 0x0A])
           @ concat
               (map (\<lambda>e. [CHR 0x0A, CHR 0x0A] @ ''---'' @ [CHR 0x0A, CHR 0x0A]
                          @ replicate (nat (entry_depth e + 2)) CHR ''#''
                          @ '' ['' @ entry_title e @ '']'' @ [CHR 0x0A, CHR 0x0A]
                          @ extract_text_from_body
                              (get_or (tab_body (get_or (documentTab (entry_tab e))
                                                   empty_document_tab))
                                 empty_body))
                  (flatten_tabs (get_or (doc_tabs doc) []) 0))))"
  using assms
  by (simp add: read_document_def get_doc_with_tabs_ok Let_def fold_section_step io_return_def
      tab_section_def [abs_def] join_Cons tab_separator_def tab_body_of_def comp_def)

lemma example_bodies:
  "extract_text_from_body (tab_body_of tab_A) = ''hello''"
  "extract_text_from_body (tab_body_of tab_B) = ''## Intro''"
  "extract_text_from_body (tab_body_of tab_C) = []"
  "extract_text_from_body (tab_body_of tab_D) = []"
  by (simp_all add: tab_body_of_def tab_A_def tab_B_def tab_C_def tab_D_def body_of_def
      get_or_def para_of_def extract_text_from_body_def extract_step_def line_parts_step_def
      rstrip_nl_def heading_map_def empty_document_tab_def empty_body_def)

theorem read_document_all_tabs_witness:
  "read_document ascii_lower (service_of doc_with_tabs) ''doc1'' [] [] =
     ([GetDocument ''doc1''],
      Inr (''# Plan'' @ [CHR 0x0A]
           @ [CHR 0x0A, CHR 0x0A] @ ''---'' @ [CHR 0x0A, CHR 0x0A]
           @ ''## [Home]'' @ [CHR 0x0A, CHR 0x0A] @ ''hello''
           @ [CHR 0x0A, CHR 0x0A] @ ''---'' @ [CHR 0x0A, CHR 0x0A]
           @ ''### [Notes]'' @ [CHR 0x0A, CHR 0x0A] @ ''## Intro''
           @ [CHR 0x0A, CHR 0x0A] @ ''---'' @ [CHR 0x0A, CHR 0x0A]
           @ ''### [NOTES]'' @ [CHR 0x0A, CHR 0x0A]
           @ [CHR 0x0A, CHR 0x0A] @ ''---'' @ [CHR 0x0A, CHR 0x0A]
           @ ''#### [Drafts]'' @ [CHR 0x0A, CHR 0x0A]))"
proof -
  have fetch: "documents_get (service_of doc_with_tabs) ''doc1'' = Inr doc_with_tabs"
    by (simp add: service_of_def)
  have title: "get_or (doc_title doc_with_tabs) ''Untitled'' = ''Plan''"
    by (simp add: doc_with_tabs_def get_or_def)
  have hashes: "replicate 2 CHR ''#'' = ''##''" "replicate 3 CHR ''#'' = ''###''"
    "replicate 4 CHR ''#'' = ''####''"
    by (simp_all add: eval_nat_numeral)
  show ?thesis
    using read_document_all_tabs [OF fetch, of ascii_lower]
    by (simp add: example_tabs example_flat example_entries example_bodies title hashes
        tab_body_of_def [symmetric])
qed

section \<open>Request scope rewriter and the editing tools: properties\<close>

lemma py_contains_error: "py_contains k v = Inl e \<Longrightarrow> e = TypeError"
  by (cases v) auto

lemma py_setitem_error: "py_setitem v k x = Inl e \<Longrightarrow> e = TypeError"
  by (cases v) auto

lemma inject_key_error: "inject_key rid key b = Inl e \<Longrightarrow> e = TypeError"
  by (auto simp: inject_key_def split: option.splits sum.splits bool.splits
      dest: py_contains_error py_setitem_error)

lemma fold_err_error:
  "fold_err f xs s = Inl e \<Longrightarrow> (\<And>x s e. f x s = Inl e \<Longrightarrow> P e) \<Longrightarrow> P e"
  by (induction xs arbitrary: s) (auto split: sum.splits)

lemma map_err_error:
  "map_err f xs = Inl e \<Longrightarrow> (\<And>x e. f x = Inl e \<Longrightarrow> P e) \<Longrightarrow> P e"
  by (induction xs) (auto split: sum.splits)

lemma scope_op_body_error: "scope_op_body rid b = Inl e \<Longrightarrow> e = TypeError"
  unfolding scope_op_body_def
  by (auto split: sum.splits if_splits elim: fold_err_error [where P = "\<lambda>e. e = TypeError"]
      dest: inject_key_error)

lemma scope_item_error: "scope_item rid item = Inl e \<Longrightarrow> e = TypeError"
  by (auto simp: scope_item_def split: prod.splits json.splits sum.splits
      dest: scope_op_body_error)

lemma scope_requests_error: "scope_requests rid requests = Inl e \<Longrightarrow> e = TypeError"
  unfolding scope_requests_def scope_request_def
  by (auto split: if_splits elim!: map_err_error [where P = "\<lambda>e. e = TypeError"]
      dest: scope_item_error)

lemma inject_key_Inr:
  assumes "inject_key rid key b = Inr b'"
  shows "map_of b' k = (if k = key then map_option (scoped_value rid) (map_of b key) else map_of b k)"
proof (cases "map_of b key")
  case None
  then show ?thesis using assms by (auto simp: inject_key_def)
next
  case (Some v)
  show ?thesis
  proof (cases v)
    case (JObj loc)
    then show ?thesis
      using assms Some by (auto simp: inject_key_def update_conv' split: if_splits)
  qed (use assms Some in \<open>auto simp: inject_key_def split: if_splits sum.splits bool.splits\<close>)
qed

lemma scoped_value_idem [simp]: "scoped_value rid (scoped_value rid v) = scoped_value rid v"
  by (cases v) (auto simp: update_conv')

lemma fold_inject_key_Inr:
  "fold_err (inject_key rid) keys b = Inr b' \<Longrightarrow>
   map_of b' k = (if k \<in> set keys then map_option (scoped_value rid) (map_of b k) else map_of b k)"
proof (induction keys arbitrary: b)
  case Nil
  then show ?case by simp
next
  case (Cons key keys)
  from Cons.prems obtain b1 where b1: "inject_key rid key b = Inr b1"
    and rest: "fold_err (inject_key rid) keys b1 = Inr b'"
    by (auto split: sum.splits)
  show ?case
    using Cons.IH [OF rest] inject_key_Inr [OF b1, of k]
    by (auto simp: option.map_comp comp_def)
qed

lemma scope_op_body_Inr:
  assumes "scope_op_body rid b = Inr b'"
  shows "map_of b' k =
     (if k \<in> set scope_keys then map_option (scoped_value rid) (map_of b k)
      else if k = ''tabsCriteria'' \<and> map_of b ''containsText'' \<noteq> None
              \<and> map_of b ''tabsCriteria'' = None
        then Some (tabs_criteria rid)
      else map_of b k)"
proof -
  from assms obtain b1 where b1: "fold_err (inject_key rid) scope_keys b = Inr b1"
    and b': "b' = (if map_of b1 ''containsText'' \<noteq> None \<and> map_of b1 ''tabsCriteria'' = None
                   then AList.update ''tabsCriteria'' (tabs_criteria rid) b1 else b1)"
    by (auto simp: scope_op_body_def split: sum.splits if_splits)
  have notin: "''containsText'' \<notin> set scope_keys" "''tabsCriteria'' \<notin> set scope_keys"
    by (simp_all add: scope_keys_def)
  have b1_k: "map_of b1 k =
      (if k \<in> set scope_keys then map_option (scoped_value rid) (map_of b k) else map_of b k)"
    by (rule fold_inject_key_Inr [OF b1])
  have same: "map_of b1 ''containsText'' = map_of b ''containsText''"
             "map_of b1 ''tabsCriteria'' = map_of b ''tabsCriteria''"
    using fold_inject_key_Inr [OF b1] notin by simp_all
  show ?thesis
  proof (cases "map_of b ''containsText'' \<noteq> None \<and> map_of b ''tabsCriteria'' = None")
    case True
    then have "b' = AList.update ''tabsCriteria'' (tabs_criteria rid) b1"
      using b' same by simp
    then have "map_of b' k = (if k = ''tabsCriteria'' then Some (tabs_criteria rid) else map_of b1 k)"
      by (simp add: update_conv')
    then show ?thesis using True b1_k notin by auto
  next
    case False
    then have "b' = b1" using b' same by auto
    then show ?thesis using False b1_k by auto
  qed
qed

lemma inject_key_ok:
  "(case map_of b key of None \<Rightarrow> True | Some v \<Rightarrow> is_obj v) \<Longrightarrow> \<exists>b'. inject_key rid key b = Inr b'"
proof (cases "map_of b key")
  case None
  then show ?thesis by (simp add: inject_key_def)
next
  case (Some v)
  assume "case map_of b key of None \<Rightarrow> True | Some v \<Rightarrow> is_obj v"
  then obtain loc where "v = JObj loc" using Some by (cases v) auto
  then show ?thesis using Some
    by (cases "map_of loc ''tabId''") (simp_all add: inject_key_def)
qed

lemma is_obj_scoped_value [simp]: "is_obj (scoped_value rid v) = is_obj v"
  by (cases v) auto

lemma fold_inject_key_ok:
  "list_all (\<lambda>key. case map_of b key of None \<Rightarrow> True | Some v \<Rightarrow> is_obj v) keys \<Longrightarrow>
   \<exists>b'. fold_err (inject_key rid) keys b = Inr b'"
proof (induction keys arbitrary: b)
  case Nil
  then show ?case by simp
next
  case (Cons key keys)
  then obtain b1 where b1: "inject_key rid key b = Inr b1"
    using inject_key_ok [of b key rid] by auto
  have "list_all (\<lambda>key. case map_of b1 key of None \<Rightarrow> True | Some v \<Rightarrow> is_obj v) keys"
    using Cons.prems inject_key_Inr [OF b1]
    by (auto simp: list_all_iff split: option.splits)
  from Cons.IH [OF this] show ?case by (simp add: b1)
qed

lemma scope_op_body_ok: "op_fields_ok b \<Longrightarrow> \<exists>b'. scope_op_body rid b = Inr b'"
  using fold_inject_key_ok [of b scope_keys rid]
  by (auto simp: op_fields_ok_def scope_op_body_def)

lemma scope_item_ok:
  "(case snd item of JObj op_body \<Rightarrow> op_fields_ok op_body | _ \<Rightarrow> True) \<Longrightarrow>
   \<exists>item'. scope_item rid item = Inr item'"
proof (cases item)
  case (Pair op_name v)
  assume ok: "case snd item of JObj op_body \<Rightarrow> op_fields_ok op_body | _ \<Rightarrow> True"
  show ?thesis
  proof (cases v)
    case (JObj b)
    then have "op_fields_ok b" using ok Pair by simp
    from scope_op_body_ok [OF this, of rid] show ?thesis
      using Pair JObj by (auto simp: scope_item_def)
  qed (simp_all add: Pair scope_item_def)
qed

lemma map_err_ok:
  "list_all (\<lambda>x. \<exists>y. f x = Inr y) xs \<Longrightarrow> \<exists>ys. map_err f xs = Inr ys"
  by (induction xs) auto

lemma map_err_length: "map_err f xs = Inr ys \<Longrightarrow> length ys = length xs"
  by (induction xs arbitrary: ys) (auto split: sum.splits)

lemma map_err_nth: "map_err f xs = Inr ys \<Longrightarrow> i < length xs \<Longrightarrow> f (xs ! i) = Inr (ys ! i)"
proof (induction xs arbitrary: ys i)
  case Nil
  then show ?case by simp
next
  case (Cons x xs)
  then show ?case by (cases i) (auto split: sum.splits)
qed

lemma scope_request_ok:
  assumes "request_ok req"
  shows "\<exists>req'. scope_request rid req = Inr req'"
proof -
  have "list_all (\<lambda>item. \<exists>item'. scope_item rid item = Inr item') req"
    using assms scope_item_ok [of _ rid] by (simp add: request_ok_def list_all_iff)
  then show ?thesis
    unfolding scope_request_def by (rule map_err_ok)
qed

lemma scope_requests_ok:
  assumes "well_formed_batch requests"
  shows "\<exists>requests'. scope_requests rid requests = Inr requests'"
proof -
  have "list_all (\<lambda>req. \<exists>req'. scope_request rid req = Inr req') requests"
    using assms scope_request_ok [of _ rid] by (simp add: well_formed_batch_def list_all_iff)
  then have "\<exists>requests'. map_err (scope_request rid) requests = Inr requests'"
    by (rule map_err_ok)
  then show ?thesis by (simp add: scope_requests_def)
qed

lemma scope_request_lookup:
  "scope_request rid req = Inr req' \<Longrightarrow> map_of req op_name = Some v \<Longrightarrow>
   \<exists>v'. map_of req' op_name = Some v' \<and> scope_item rid (op_name, v) = Inr (op_name, v')"
  unfolding scope_request_def
proof (induction req arbitrary: req')
  case Nil
  then show ?case by simp
next
  case (Cons item req)
  obtain n x where item: "item = (n, x)" by (cases item)
  from Cons.prems(1) obtain item' rest where item': "scope_item rid item = Inr item'"
    and rest: "map_err (scope_item rid) req = Inr rest" and req': "req' = item' # rest"
    by (auto split: sum.splits)
  have fst: "fst item' = n"
    using item' item by (auto simp: scope_item_def split: json.splits sum.splits)
  show ?case
  proof (cases "n = op_name")
    case True
    then have "x = v" using Cons.prems(2) item by simp
    then show ?thesis using item' item True fst req' by (cases item') auto
  next
    case False
    then have "map_of req op_name = Some v" using Cons.prems(2) item by simp
    from Cons.IH [OF rest this] show ?thesis using False fst req' by (cases item') auto
  qed
qed

lemma scope_requests_lookup:
  assumes "scope_requests rid requests = Inr requests'"
    and "i < length requests"
    and "map_of (requests ! i) op_name = Some (JObj b)"
  shows "\<exists>b'. map_of (requests' ! i) op_name = Some (JObj b')
            \<and> (rid = [] \<and> b' = b \<or> rid \<noteq> [] \<and> scope_op_body rid b = Inr b')"
proof (cases "rid = []")
  case True
  then show ?thesis using assms by (simp add: scope_requests_def)
next
  case False
  then have "map_err (scope_request rid) requests = Inr requests'"
    using assms(1) by (simp add: scope_requests_def)
  then have "scope_request rid (requests ! i) = Inr (requests' ! i)"
    using assms(2) by (rule map_err_nth)
  from scope_request_lookup [OF this assms(3)]
  obtain v' where v': "map_of (requests' ! i) op_name = Some v'"
    and item: "scope_item rid (op_name, JObj b) = Inr (op_name, v')"
    by blast
  from item obtain b' where "v' = JObj b'" "scope_op_body rid b = Inr b'"
    by (auto simp: scope_item_def split: sum.splits)
  then show ?thesis using v' False by simp
qed

text \<open>
  C3, as stated, fails in two ways. The rewrite is a loop over the operations of a request
  and a lookup of the three names in the body of each operation, not a walk of the whole
  request: a \<open>range\<close> that lies one level deeper, here inside a \<open>tableRange\<close>, has no
  \<open>tabId\<close> and comes back without one. And the rewrite does not handle every batch: a
  \<open>location\<close> that is \<^verbatim>\<open>null\<close> makes the membership test raise.
\<close>

theorem scope_rewrite_misses_nested_and_null:
  "scope_requests ''tab123''
     [[(''updateTableCellStyle'',
        JObj [(''tableRange'', JObj [(''range'', JObj [(''startIndex'', JInt 1)])]),
              (''fields'', JStr ''*'')])]]
   = Inr [[(''updateTableCellStyle'',
            JObj [(''tableRange'', JObj [(''range'', JObj [(''startIndex'', JInt 1)])]),
                  (''fields'', JStr ''*'')])]]
   \<and> scope_requests ''tab123''
        [[(''insertText'', JObj [(''location'', JNull), (''text'', JStr ''hi'')])]]
      = Inl TypeError"
  by (simp add: scope_requests_def scope_request_def scope_item_def scope_op_body_def
      scope_keys_def inject_key_def)

text \<open>
  C3, amended. With a non-empty resolved identifier the rewrite returns a batch for every
  batch in which each value stored under \<open>location\<close>, \<open>range\<close> or \<open>insertionLocation\<close>
  directly in the body of an operation is an object; when it does not return, it raises a
  type error. Whenever it returns: the batch has the same length; in every request, for
  every operation whose body is an object (whatever the operation is called), each of the
  fields \<open>location\<close>, \<open>range\<close> and \<open>insertionLocation\<close> of the body that is an object without a
  \<open>tabId\<close> is the same object with \<open>tabId\<close> set to the resolved identifier; a body that has
  a \<open>containsText\<close> and no \<open>tabsCriteria\<close> gets a \<open>tabsCriteria\<close> listing exactly the
  resolved identifier; and every other field of the body, with whatever is nested in it, is
  left as it was.
\<close>

theorem scope_rewrite_injects:
  assumes "resolved \<noteq> []"
  shows "(well_formed_batch requests \<longrightarrow>
            (\<exists>requests'. scope_requests resolved requests = Inr requests'))
     \<and> (\<forall>e. scope_requests resolved requests = Inl e \<longrightarrow> e = TypeError)
     \<and> (\<forall>requests'. scope_requests resolved requests = Inr requests' \<longrightarrow>
          length requests' = length requests
          \<and> (\<forall>i < length requests. \<forall>op_name op_body.
                map_of (requests ! i) op_name = Some (JObj op_body) \<longrightarrow>
                (\<exists>op_body'.
                   map_of (requests' ! i) op_name = Some (JObj op_body')
                   \<and> (\<forall>key \<in> set [''location'', ''range'', ''insertionLocation'']. \<forall>loc.
                         map_of op_body key = Some (JObj loc) \<and> map_of loc ''tabId'' = None \<longrightarrow>
                         map_of op_body' key
                           = Some (JObj (AList.update ''tabId'' (JStr resolved) loc)))
                   \<and> (map_of op_body ''containsText'' \<noteq> None
                        \<and> map_of op_body ''tabsCriteria'' = None
                         \<longrightarrow> map_of op_body' ''tabsCriteria''
                             = Some (JObj [(''tabIds'', JList [JStr resolved])]))
                   \<and> (\<forall>k. k \<notin> set [''location'', ''range'', ''insertionLocation'',
                                     ''tabsCriteria'']
                         \<longrightarrow> map_of op_body' k = map_of op_body k))))"
proof -
  have returns: "\<exists>requests'. scope_requests resolved requests = Inr requests'"
    if "well_formed_batch requests"
    using that by (rule scope_requests_ok)
  have raises: "e = TypeError" if "scope_requests resolved requests = Inl e" for e
    using that by (rule scope_requests_error)
  have len: "length requests' = length requests"
    if ok: "scope_requests resolved requests = Inr requests'" for requests'
  proof -
    have "map_err (scope_request resolved) requests = Inr requests'"
      using ok assms by (simp add: scope_requests_def)
    then show ?thesis by (rule map_err_length)
  qed
  have fields: "\<exists>op_body'.
          map_of (requests' ! i) op_name = Some (JObj op_body')
          \<and> (\<forall>key \<in> set [''location'', ''range'', ''insertionLocation'']. \<forall>loc.
                map_of op_body key = Some (JObj loc) \<and> map_of loc ''tabId'' = None \<longrightarrow>
                map_of op_body' key = Some (JObj (AList.update ''tabId'' (JStr resolved) loc)))
          \<and> (map_of op_body ''containsText'' \<noteq> None \<and> map_of op_body ''tabsCriteria'' = None
                \<longrightarrow> map_of op_body' ''tabsCriteria''
                    = Some (JObj [(''tabIds'', JList [JStr resolved])]))
          \<and> (\<forall>k. k \<notin> set [''location'', ''range'', ''insertionLocation'', ''tabsCriteria'']
                \<longrightarrow> map_of op_body' k = map_of op_body k)"
    if ok: "scope_requests resolved requests = Inr requests'"
      and i: "i < length requests"
      and op: "map_of (requests ! i) op_name = Some (JObj op_body)"
    for requests' i op_name op_body
  proof -
    from scope_requests_lookup [OF ok i op] assms
    obtain op_body' where lookup: "map_of (requests' ! i) op_name = Some (JObj op_body')"
      and body: "scope_op_body resolved op_body = Inr op_body'"
      by auto
    have keys: "map_of op_body' key = Some (JObj (AList.update ''tabId'' (JStr resolved) loc))"
      if "key \<in> set scope_keys" "map_of op_body key = Some (JObj loc)"
         "map_of loc ''tabId'' = None" for key loc
      using scope_op_body_Inr [OF body, of key] that by simp
    have "''tabsCriteria'' \<notin> set scope_keys" by (simp add: scope_keys_def)
    then have criteria: "map_of op_body' ''tabsCriteria'' = Some (tabs_criteria resolved)"
      if "map_of op_body ''containsText'' \<noteq> None" "map_of op_body ''tabsCriteria'' = None"
      using scope_op_body_Inr [OF body, of "''tabsCriteria''"] that by simp
    have others: "map_of op_body' k = map_of op_body k"
      if "k \<notin> set scope_keys" "k \<noteq> ''tabsCriteria''" for k
      using scope_op_body_Inr [OF body, of k] that by simp
    show ?thesis
    proof (intro exI conjI ballI allI impI)
      show "map_of (requests' ! i) op_name = Some (JObj op_body')" by (rule lookup)
    next
      fix key loc
      assume "key \<in> set [''location'', ''range'', ''insertionLocation'']"
        and "map_of op_body key = Some (JObj loc) \<and> map_of loc ''tabId'' = None"
      then show "map_of op_body' key = Some (JObj (AList.update ''tabId'' (JStr resolved) loc))"
        using keys [of key loc] unfolding scope_keys_def by blast
    next
      assume "map_of op_body ''containsText'' \<noteq> None \<and> map_of op_body ''tabsCriteria'' = None"
      then show "map_of op_body' ''tabsCriteria'' = Some (JObj [(''tabIds'', JList [JStr resolved])])"
        using criteria by (simp add: tabs_criteria_def)
    next
      fix k :: string
      assume "k \<notin> set [''location'', ''range'', ''insertionLocation'', ''tabsCriteria'']"
      then have "k \<notin> set scope_keys" "k \<noteq> ''tabsCriteria''"
        unfolding scope_keys_def by auto
      then show "map_of op_body' k = map_of op_body k" by (rule others)
    qed
  qed
  show ?thesis using returns raises len fields by blast
qed

theorem scope_rewrite_injects_witness:
  "well_formed_batch example_batch
   \<and> scope_requests ''tab123'' example_batch = Inr example_batch_scoped"
proof -
  have wf: "well_formed_batch example_batch"
    by (simp add: well_formed_batch_def request_ok_def op_fields_ok_def example_batch_def
        scope_keys_def)
  have ne: "''tab123'' \<noteq> []" by simp
  have "scope_requests ''tab123'' example_batch = Inr example_batch_scoped"
    using scope_rewrite_injects [OF ne, of example_batch]
    by (simp add: scope_requests_def scope_request_def scope_item_def scope_op_body_def
        scope_keys_def inject_key_def example_batch_def example_batch_scoped_def tabs_criteria_def)
  then show ?thesis using wf by simp
qed

lemma inject_key_scoped:
  "(case map_of b key of None \<Rightarrow> True | Some (JObj loc) \<Rightarrow> map_of loc ''tabId'' \<noteq> None
    | Some other \<Rightarrow> False) \<Longrightarrow> inject_key rid key b = Inr b"
  by (auto simp: inject_key_def split: option.splits json.splits)

lemma fold_inject_key_scoped:
  "list_all (\<lambda>key. case map_of b key of None \<Rightarrow> True
                    | Some (JObj loc) \<Rightarrow> map_of loc ''tabId'' \<noteq> None
                    | Some other \<Rightarrow> False) keys \<Longrightarrow>
   fold_err (inject_key rid) keys b = Inr b"
  by (induction keys) (simp_all add: inject_key_scoped)

lemma scope_op_body_scoped: "op_scoped b \<Longrightarrow> scope_op_body rid b = Inr b"
  by (auto simp: op_scoped_def scope_op_body_def fold_inject_key_scoped)

lemma scope_item_scoped:
  "(case snd item of JObj op_body \<Rightarrow> op_scoped op_body | _ \<Rightarrow> True) \<Longrightarrow>
   scope_item rid item = Inr item"
  by (cases item; cases "snd item") (auto simp: scope_item_def scope_op_body_scoped)

lemma map_err_same: "list_all (\<lambda>x. f x = Inr x) xs \<Longrightarrow> map_err f xs = Inr xs"
  by (induction xs) auto

lemma scope_request_scoped: "request_scoped req \<Longrightarrow> scope_request rid req = Inr req"
  unfolding scope_request_def request_scoped_def
  by (rule map_err_same) (simp add: list_all_iff scope_item_scoped)

lemma scope_requests_scoped:
  "explicitly_scoped requests \<Longrightarrow> scope_requests rid requests = Inr requests"
proof -
  assume "explicitly_scoped requests"
  then have "list_all (\<lambda>req. scope_request rid req = Inr req) requests"
    by (simp add: explicitly_scoped_def list_all_iff scope_request_scoped)
  then have "map_err (scope_request rid) requests = Inr requests" by (rule map_err_same)
  then show ?thesis by (simp add: scope_requests_def)
qed

text \<open>
  C4. Rewriting a batch whose requests all carry explicit scopes returns an equal batch,
  whatever the resolved identifier; with an empty resolved identifier every batch is returned
  as it is; and in any rewrite that returns, a field that already has a \<open>tabId\<close> and an
  existing \<open>tabsCriteria\<close> are left as they were.
\<close>

theorem scope_rewrite_keeps_explicit_scopes:
  "(explicitly_scoped requests \<longrightarrow> scope_requests resolved requests = Inr requests)
   \<and> scope_requests [] requests = Inr requests
   \<and> (\<forall>requests'. scope_requests resolved requests = Inr requests' \<longrightarrow>
         (\<forall>i < length requests. \<forall>op_name op_body.
            map_of (requests ! i) op_name = Some (JObj op_body) \<longrightarrow>
            (\<exists>op_body'.
               map_of (requests' ! i) op_name = Some (JObj op_body')
               \<and> (\<forall>key loc. map_of op_body key = Some (JObj loc) \<and> map_of loc ''tabId'' \<noteq> None
                     \<longrightarrow> map_of op_body' key = Some (JObj loc))
               \<and> (map_of op_body ''tabsCriteria'' \<noteq> None
                     \<longrightarrow> map_of op_body' ''tabsCriteria'' = map_of op_body ''tabsCriteria''))))"
proof (intro conjI allI impI)
  assume "explicitly_scoped requests"
  then show "scope_requests resolved requests = Inr requests" by (rule scope_requests_scoped)
next
  show "scope_requests [] requests = Inr requests" by (simp add: scope_requests_def)
next
  fix requests' i op_name op_body
  assume ok: "scope_requests resolved requests = Inr requests'"
    and i: "i < length requests"
    and op: "map_of (requests ! i) op_name = Some (JObj op_body)"
  from scope_requests_lookup [OF ok i op]
  obtain op_body' where lookup: "map_of (requests' ! i) op_name = Some (JObj op_body')"
    and body: "resolved = [] \<and> op_body' = op_body
               \<or> resolved \<noteq> [] \<and> scope_op_body resolved op_body = Inr op_body'"
    by blast
  have kept: "map_of op_body' key = Some (JObj loc)"
    if "map_of op_body key = Some (JObj loc)" "map_of loc ''tabId'' \<noteq> None" for key loc
  proof (cases "resolved = []")
    case True
    then show ?thesis using body that by simp
  next
    case False
    then have "scope_op_body resolved op_body = Inr op_body'" using body by simp
    from scope_op_body_Inr [OF this, of key] show ?thesis using that by auto
  qed
  have "''tabsCriteria'' \<notin> set scope_keys" by (simp add: scope_keys_def)
  then have criteria: "map_of op_body' ''tabsCriteria'' = map_of op_body ''tabsCriteria''"
    if "map_of op_body ''tabsCriteria'' \<noteq> None"
    using body scope_op_body_Inr [of resolved op_body op_body' "''tabsCriteria''"] that by auto
  show "\<exists>op_body'.
               map_of (requests' ! i) op_name = Some (JObj op_body')
               \<and> (\<forall>key loc. map_of op_body key = Some (JObj loc) \<and> map_of loc ''tabId'' \<noteq> None
                     \<longrightarrow> map_of op_body' key = Some (JObj loc))
               \<and> (map_of op_body ''tabsCriteria'' \<noteq> None
                     \<longrightarrow> map_of op_body' ''tabsCriteria'' = map_of op_body ''tabsCriteria'')"
    using lookup kept criteria by blast
qed

theorem scope_rewrite_keeps_explicit_scopes_witness:
  "explicitly_scoped example_batch_scoped
   \<and> scope_requests ''t.zzz'' example_batch_scoped = Inr example_batch_scoped
   \<and> scope_requests [] example_batch = Inr example_batch"
proof -
  have scoped: "explicitly_scoped example_batch_scoped"
    by (simp add: explicitly_scoped_def request_scoped_def op_scoped_def
        example_batch_scoped_def scope_keys_def)
  show ?thesis
    using scoped scope_rewrite_keeps_explicit_scopes [of example_batch_scoped "''t.zzz''"]
      scope_rewrite_keeps_explicit_scopes [of example_batch "[]"]
    by blast
qed


lemma io_bind_result:
  "snd (io_bind m f) = (case snd m of Inl e \<Rightarrow> Inl e | Inr x \<Rightarrow> snd (f x))"
  by (cases m; cases "snd m") (auto simp: io_bind_def split: prod.splits)






lemma fetches_simps [simp]:
  "fetches [] = False" "fetches (GetDocument d # calls) = True"
  "fetches (BatchUpdate d rs # calls) = fetches calls"
  by (simp_all add: fetches_def)






section \<open>Content extractor: properties\<close>

lemma heading_map_prefix: "get_or (map_of heading_map s) [] = spec_block_prefix s"
  by (simp add: heading_map_def spec_block_prefix_def get_or_def eval_nat_numeral)

lemma fold_line_parts_step:
  "fold line_parts_step es line_parts =
     line_parts @ concat (map (\<lambda>e. case textRun e of None \<Rightarrow> []
                                  | Some r \<Rightarrow> [get_or (run_content r) []]) es)"
  by (induction es arbitrary: line_parts) (auto simp: line_parts_step_def split: option.splits)

lemma concat_line_parts:
  "concat (fold line_parts_step es []) = concat (map spec_run_text es)"
proof -
  have "concat (concat (map (\<lambda>e. case textRun e of None \<Rightarrow> []
                                | Some r \<Rightarrow> [get_or (run_content r) []]) es))
        = concat (map spec_run_text es)"
    by (induction es) (auto simp: spec_run_text_def split: option.splits)
  then show ?thesis by (simp add: fold_line_parts_step)
qed

lemma extract_step_lines: "extract_step element parts = parts @ spec_element_lines element"
  by (cases "paragraph_of element")
     (simp_all add: extract_step_def spec_element_lines_def spec_paragraph_lines_def Let_def
        concat_line_parts heading_map_prefix)

lemma fold_extract_step:
  "fold extract_step es parts = parts @ concat (map spec_element_lines es)"
  by (induction es arbitrary: parts) (simp_all add: extract_step_lines)

lemma rstrip_nl_suffix: "\<exists>n. line = rstrip_nl line @ replicate n CHR 0x0A"
proof -
  let ?P = "\<lambda>c. c = CHR 0x0A"
  have "rev line = takeWhile ?P (rev line) @ dropWhile ?P (rev line)" by simp
  then have "line = rev (dropWhile ?P (rev line)) @ rev (takeWhile ?P (rev line))"
    by (metis rev_append rev_rev_ident)
  moreover have "rev (takeWhile ?P (rev line)) = replicate (length (takeWhile ?P (rev line))) CHR 0x0A"
    by (rule replicate_eqI) (auto dest: set_takeWhileD)
  ultimately show ?thesis unfolding rstrip_nl_def by metis
qed

lemma rstrip_nl_last: "rstrip_nl line \<noteq> [] \<Longrightarrow> last (rstrip_nl line) \<noteq> CHR 0x0A"
  unfolding rstrip_nl_def
  by (metis (mono_tags, lifting) hd_dropWhile last_rev rev_is_Nil_conv)

text \<open>
  C6. The extractor's output is the lines emitted for the structural elements of the body,
  in document order, joined by single line feeds. An element that is not a paragraph emits
  nothing. A paragraph's line is the concatenation of the contents of its text runs, in
  order, with its trailing line feeds removed (what is removed is a run of line feeds, and
  what is left does not end in one); a non-empty line is emitted behind the prefix of the
  paragraph's named style (one to six hash marks and a space for heading levels 1 to 6, one
  for a title, two for a subtitle, nothing otherwise); an empty line is emitted as an empty
  line when the prefix is empty, and not at all when it is not.
\<close>

theorem extract_text_renders_paragraphs:
  "extract_text_from_body b =
     join [CHR 0x0A] (concat (map spec_element_lines (get_or (content b) [])))
   \<and> (\<exists>n. line = rstrip_nl line @ replicate n CHR 0x0A)
   \<and> (rstrip_nl line \<noteq> [] \<longrightarrow> last (rstrip_nl line) \<noteq> CHR 0x0A)"
  using rstrip_nl_suffix [of line] rstrip_nl_last [of line]
  by (simp add: extract_text_from_body_def fold_extract_step)

theorem extract_text_renders_paragraphs_witness:
  "extract_text_from_body example_body = ''## Intro'' @ [CHR 0x0A] @ [CHR 0x0A] @ ''text''"
proof -
  have "concat (map spec_element_lines (get_or (content example_body) [])) =
          [''## Intro'', [], ''text'']"
    by (simp add: example_body_def get_or_def para_of_def spec_element_lines_def
        spec_paragraph_lines_def spec_run_text_def spec_block_prefix_def rstrip_nl_def
        empty_paragraph_style_def eval_nat_numeral)
  then show ?thesis
    using extract_text_renders_paragraphs [of example_body "[]"] by simp
qed

end
